theory Spec2Isabelle
  imports Main
begin

section \<open>Python values, exceptions and outcomes\<close>

text \<open>
  The values that flow through \<^verbatim>\<open>log10/load.py\<close>: arguments and results of the
  wrapped callables, JSON bodies of the backend requests, identifiers returned by the
  backend. A \<open>PObject\<close> is any object that \<^verbatim>\<open>json.dumps\<close> refuses (a class instance,
  a function, a queue); it carries the attributes that the code may read from it.
  Dictionaries keep their insertion order and have string keys. Strings are lists of
  code points below 256. Floats are left out.
\<close>

datatype pyval =
    PNone
  | PBool bool
  | PInt int
  | PStr string
  | PList "pyval list"
  | PDict "(string \<times> pyval) list"
  | PObject "(string \<times> pyval) list"

text \<open>
  A raised exception is either an instance of \<^verbatim>\<open>Exception\<close> (what \<^verbatim>\<open>except Exception\<close>
  catches) or an instance of \<^verbatim>\<open>BaseException\<close> only (\<^verbatim>\<open>KeyboardInterrupt\<close>,
  \<^verbatim>\<open>SystemExit\<close>, \<^verbatim>\<open>GeneratorExit\<close>). The string is what \<^verbatim>\<open>str(e)\<close> gives.
\<close>

datatype exn = Exception string | BaseException string

fun is_Exception :: "exn \<Rightarrow> bool" where
  "is_Exception (Exception _) = True"
| "is_Exception (BaseException _) = False"

fun str_exn :: "exn \<Rightarrow> string" where
  "str_exn (Exception s) = s"
| "str_exn (BaseException s) = s"

text \<open>
  The outcome of a call: it returns a value, it raises, or it never comes back
  (no request of this module has a timeout, and the wrapper polls without one).
\<close>

datatype 'a res = Ret 'a | Raise exn | Hang

type_synonym kwargs = "(string \<times> pyval) list"

subsection \<open>Dictionaries\<close>

fun dict_get :: "(string \<times> 'v) list \<Rightarrow> string \<Rightarrow> 'v option" where
  "dict_get [] k = None"
| "dict_get ((k', v) # d) k = (if k' = k then Some v else dict_get d k)"

text \<open>\<^verbatim>\<open>d[k] = v\<close>: an existing key keeps its position, a new key goes last.\<close>

fun dict_set :: "(string \<times> 'v) list \<Rightarrow> string \<Rightarrow> 'v \<Rightarrow> (string \<times> 'v) list" where
  "dict_set [] k v = [(k, v)]"
| "dict_set ((k', v') # d) k v = (if k' = k then (k, v) # d else (k', v') # dict_set d k v)"

text \<open>\<^verbatim>\<open>{**d, **e}\<close>: the entries of \<open>e\<close> are stored into \<open>d\<close> one after the other.\<close>

fun dict_merge :: "(string \<times> 'v) list \<Rightarrow> (string \<times> 'v) list \<Rightarrow> (string \<times> 'v) list" where
  "dict_merge d [] = d"
| "dict_merge d ((k, v) # e) = dict_merge (dict_set d k v) e"

text \<open>The entries left for \<^verbatim>\<open>**kwargs\<close> once the named parameters have taken theirs.\<close>

definition dict_without :: "string list \<Rightarrow> (string \<times> 'v) list \<Rightarrow> (string \<times> 'v) list" where
  "dict_without names d = filter (\<lambda>(k, v). k \<notin> set names) d"

subsection \<open>\<^verbatim>\<open>json.dumps\<close> with its default settings\<close>

definition digit_char :: "nat \<Rightarrow> char" where
  "digit_char n = ''0123456789'' ! (n mod 10)"

fun show_nat :: "nat \<Rightarrow> string" where
  "show_nat n = (if n < 10 then [digit_char n] else show_nat (n div 10) @ [digit_char (n mod 10)])"

declare show_nat.simps [simp del]

definition show_int :: "int \<Rightarrow> string" where
  "show_int i = (if i < 0 then CHR ''-'' # show_nat (nat (- i)) else show_nat (nat i))"

definition hex_char :: "nat \<Rightarrow> char" where
  "hex_char n = ''0123456789abcdef'' ! (n mod 16)"

text \<open>
  \<^verbatim>\<open>ensure_ascii\<close> is on: the quote and the backslash get a backslash, the five
  short escapes are used, and every other code point outside space..tilde becomes
  \<^verbatim>\<open>\u00xx\<close>.
\<close>

definition escape_char :: "char \<Rightarrow> string" where
  "escape_char c =
     (if c = CHR 0x22 then [CHR 0x5C, CHR 0x22]
      else if c = CHR 0x5C then [CHR 0x5C, CHR 0x5C]
      else if c = CHR 0x0A then [CHR 0x5C, CHR ''n'']
      else if c = CHR 0x0D then [CHR 0x5C, CHR ''r'']
      else if c = CHR 0x09 then [CHR 0x5C, CHR ''t'']
      else if c = CHR 0x08 then [CHR 0x5C, CHR ''b'']
      else if c = CHR 0x0C then [CHR 0x5C, CHR ''f'']
      else if 32 \<le> (of_char c :: nat) \<and> (of_char c :: nat) \<le> 126 then [c]
      else [CHR 0x5C, CHR ''u'', CHR ''0'', CHR ''0'',
            hex_char ((of_char c :: nat) div 16), hex_char ((of_char c :: nat) mod 16)])"

definition json_string :: "string \<Rightarrow> string" where
  "json_string s = [CHR 0x22] @ concat (map escape_char s) @ [CHR 0x22]"

fun join :: "string \<Rightarrow> string list \<Rightarrow> string" where
  "join sep [] = []"
| "join sep [x] = x"
| "join sep (x # y # ys) = x @ sep @ join sep (y # ys)"

fun serializable :: "pyval \<Rightarrow> bool"
  and serializable_list :: "pyval list \<Rightarrow> bool"
  and serializable_items :: "(string \<times> pyval) list \<Rightarrow> bool" where
  "serializable PNone = True"
| "serializable (PBool b) = True"
| "serializable (PInt i) = True"
| "serializable (PStr s) = True"
| "serializable (PList xs) = serializable_list xs"
| "serializable (PDict kvs) = serializable_items kvs"
| "serializable (PObject attrs) = False"
| "serializable_list [] = True"
| "serializable_list (x # xs) = (serializable x \<and> serializable_list xs)"
| "serializable_items [] = True"
| "serializable_items ((k, v) # kvs) = (serializable v \<and> serializable_items kvs)"

fun encode :: "pyval \<Rightarrow> string"
  and encode_list :: "pyval list \<Rightarrow> string list"
  and encode_items :: "(string \<times> pyval) list \<Rightarrow> string list" where
  "encode PNone = ''null''"
| "encode (PBool b) = (if b then ''true'' else ''false'')"
| "encode (PInt i) = show_int i"
| "encode (PStr s) = json_string s"
| "encode (PList xs) = ''['' @ join '', '' (encode_list xs) @ '']''"
| "encode (PDict kvs) = ''{'' @ join '', '' (encode_items kvs) @ ''}''"
| "encode (PObject attrs) = []"
| "encode_list [] = []"
| "encode_list (x # xs) = encode x # encode_list xs"
| "encode_items [] = []"
| "encode_items ((k, v) # kvs) = (json_string k @ '': '' @ encode v) # encode_items kvs"

text \<open>\<^verbatim>\<open>json.dumps(v)\<close>: a \<^verbatim>\<open>TypeError\<close> when some part of \<open>v\<close> is not serializable.\<close>

definition json_dumps :: "pyval \<Rightarrow> string res" where
  "json_dumps v =
     (if serializable v then Ret (encode v)
      else Raise (Exception ''TypeError: Object is not JSON serializable''))"

section \<open>Configuration, backend and observable effects\<close>

text \<open>
  What the process does that can be seen from outside, in the order it happens: the
  requests sent with \<^verbatim>\<open>requests.request("POST", url, headers, json)\<close> (URL, value
  of the token header, JSON body), the rows given to the warehouse client, the calls
  of \<^verbatim>\<open>logging.error\<close>. Two further entries mark points of the main thread: the
  wrapped callable has returned, and an identifier has been taken from the queue.
\<close>

datatype event =
    Http_post string "string option" pyval
  | Bq_insert pyval
  | Log_error string
  | Call_returned pyval
  | Queue_get pyval

text \<open>A response either has a JSON body (\<^verbatim>\<open>res.json()\<close> returns it) or has none.\<close>

datatype response = Json pyval | Not_json

datatype frame = Frame string "string option" int string

text \<open>
  The module-level configuration (\<^verbatim>\<open>url\<close>, \<^verbatim>\<open>token\<close>, \<^verbatim>\<open>org_id\<close>,
  \<^verbatim>\<open>target_service\<close>, read from the process environment) and everything the module
  gets from outside: the answer of the backend to a request, given what was sent
  before; the answer of the warehouse client to an insert; how many times the main
  thread finds the queue empty before a delivered identifier shows up; the measured
  duration in milliseconds (\<^verbatim>\<open>int(duration*1000)\<close>); the frames of
  \<^verbatim>\<open>traceback.extract_stack()\<close>; the values of \<^verbatim>\<open>uuid.uuid4()\<close> and of the clock.
  \<^verbatim>\<open>url\<close> is a string: with \<^verbatim>\<open>LOG10_URL\<close> unset the module fails to load at
  \<^verbatim>\<open>sessionID = get_session_id()\<close>.
\<close>

record env =
  url :: string
  token :: "string option"
  org_id :: "string option"
  target_service :: "string option"
  backend :: "event list \<Rightarrow> string \<Rightarrow> pyval \<Rightarrow> response res"
  bigquery :: "event list \<Rightarrow> pyval \<Rightarrow> unit res"
  put_delay :: nat
  elapsed_ms :: int
  extract_stack :: "frame list"
  uuid4 :: string
  utc_now :: string

text \<open>The mutable state: the global \<^verbatim>\<open>sessionID\<close> and the effects so far.\<close>

record world =
  sessionID :: pyval
  trace :: "event list"

definition emit :: "event \<Rightarrow> world \<Rightarrow> world" where
  "emit e w = w\<lparr>trace := trace w @ [e]\<rparr>"

definition opt_str :: "string option \<Rightarrow> pyval" where
  "opt_str s = (case s of None \<Rightarrow> PNone | Some t \<Rightarrow> PStr t)"

subsection \<open>Sequencing\<close>

definition then_res :: "'a res \<Rightarrow> ('a \<Rightarrow> 'b res) \<Rightarrow> 'b res" where
  "then_res r k = (case r of Ret v \<Rightarrow> k v | Raise e \<Rightarrow> Raise e | Hang \<Rightarrow> Hang)"

definition then_do :: "'a res \<times> world \<Rightarrow> ('a \<Rightarrow> world \<Rightarrow> 'b res \<times> world) \<Rightarrow> 'b res \<times> world" where
  "then_do m k =
     (case m of (Ret v, w) \<Rightarrow> k v w | (Raise e, w) \<Rightarrow> (Raise e, w) | (Hang, w) \<Rightarrow> (Hang, w))"

definition pure_do :: "'a res \<Rightarrow> world \<Rightarrow> 'a res \<times> world" where
  "pure_do r w = (r, w)"

subsection \<open>Primitive operations on values\<close>

text \<open>\<^verbatim>\<open>v[k]\<close> for a string key: only a dictionary that has the key answers.\<close>

fun subscript :: "pyval \<Rightarrow> string \<Rightarrow> pyval res" where
  "subscript (PDict d) k =
     (case dict_get d k of Some v \<Rightarrow> Ret v | None \<Rightarrow> Raise (Exception (''KeyError: '' @ k)))"
| "subscript _ k = Raise (Exception ''TypeError: not subscriptable by a string'')"

text \<open>\<^verbatim>\<open>a + b\<close> where one operand is a string: both have to be.\<close>

fun add_str :: "pyval \<Rightarrow> pyval \<Rightarrow> pyval res" where
  "add_str (PStr a) (PStr b) = Ret (PStr (a @ b))"
| "add_str _ _ = Raise (Exception ''TypeError: can only concatenate str to str'')"

text \<open>
  \<^verbatim>\<open>v.__module__\<close> and \<^verbatim>\<open>v.__qualname__\<close>: an object answers with the attribute it
  has; integers, strings, lists, dictionaries and \<^verbatim>\<open>None\<close> have neither.
\<close>

fun getattr :: "pyval \<Rightarrow> string \<Rightarrow> pyval res" where
  "getattr (PObject attrs) k =
     (case dict_get attrs k of Some v \<Rightarrow> Ret v
      | None \<Rightarrow> Raise (Exception (''AttributeError: '' @ k)))"
| "getattr _ k = Raise (Exception (''AttributeError: '' @ k))"

fun response_json :: "response \<Rightarrow> pyval res" where
  "response_json (Json v) = Ret v"
| "response_json Not_json = Raise (Exception ''JSONDecodeError'')"

text \<open>
  \<^verbatim>\<open>requests.request("POST", u, headers={"x-log10-token": token, ...}, json=body)\<close>.
  The request is prepared first (a URL that is not a string, or a body that cannot be
  serialized, raises and nothing is sent); then it is sent and the backend answers,
  fails, or never answers.
\<close>

definition request_post :: "env \<Rightarrow> pyval \<Rightarrow> pyval \<Rightarrow> world \<Rightarrow> response res \<times> world" where
  "request_post env u body w =
     (case u of
        PStr s \<Rightarrow>
          if serializable body
          then (backend env (trace w) s body, emit (Http_post s (token env) body) w)
          else (Raise (Exception ''InvalidJSONError''), w)
      | _ \<Rightarrow> (Raise (Exception ''MissingSchema: invalid URL''), w))"

text \<open>\<^verbatim>\<open>bigquery_client.insert_rows_json(bigquery_table, [row])\<close>.\<close>

definition insert_rows_json :: "env \<Rightarrow> pyval \<Rightarrow> world \<Rightarrow> unit res \<times> world" where
  "insert_rows_json env row w = (bigquery env (trace w) row, emit (Bq_insert row) w)"

text \<open>
  \<^verbatim>\<open>try: m  except Exception as e: logging.error(msg)\<close>: an \<^verbatim>\<open>Exception\<close> is logged
  and execution goes on; anything else that \<open>m\<close> raises goes through.
\<close>

definition try_log :: "string \<Rightarrow> unit res \<times> world \<Rightarrow> unit res \<times> world" where
  "try_log msg m =
     (case m of
        (Raise e, w) \<Rightarrow>
          if is_Exception e then (Ret (), emit (Log_error (msg @ str_exn e)) w)
          else (Raise e, w)
      | other \<Rightarrow> other)"

section \<open>Callables and \<^verbatim>\<open>functools.wraps\<close>\<close>

text \<open>
  A callable is a function written with \<^verbatim>\<open>def\<close> (its attributes and what a call of
  it does), a bound method (\<^verbatim>\<open>types.MethodType\<close>: a callable and its \<^verbatim>\<open>__self__\<close>), or
  the closure \<^verbatim>\<open>wrapper\<close> that \<^verbatim>\<open>intercepting_decorator(func)\<close> returns, which holds
  \<^verbatim>\<open>func\<close>.
\<close>

record fn =
  fn_module :: string
  fn_name :: string
  fn_qualname :: string
  fn_doc :: "string option"
  fn_body :: "pyval list \<Rightarrow> kwargs \<Rightarrow> pyval res"

datatype callable = Fn fn | Bound callable pyval | Wrapper callable

record meta =
  m_module :: string
  m_name :: string
  m_qualname :: string
  m_doc :: "string option"

text \<open>The attributes of the function \<^verbatim>\<open>wrapper\<close> as \<^verbatim>\<open>def\<close> creates it.\<close>

definition wrapper_meta :: meta where
  "wrapper_meta =
     \<lparr>m_module = ''log10.load'', m_name = ''wrapper'',
      m_qualname = ''intercepting_decorator.<locals>.wrapper'', m_doc = None\<rparr>"

text \<open>
  \<^verbatim>\<open>functools.update_wrapper\<close>: each of \<^verbatim>\<open>__module__\<close>, \<^verbatim>\<open>__name__\<close>,
  \<^verbatim>\<open>__qualname__\<close>, \<^verbatim>\<open>__doc__\<close> that the wrapped object has is assigned to the wrapper.
\<close>

definition update_wrapper :: "meta \<Rightarrow> meta \<Rightarrow> meta" where
  "update_wrapper wr wrapped =
     wr\<lparr>m_module := m_module wrapped, m_name := m_name wrapped,
        m_qualname := m_qualname wrapped, m_doc := m_doc wrapped\<rparr>"

fun metadata :: "callable \<Rightarrow> meta" where
  "metadata (Fn r) =
     \<lparr>m_module = fn_module r, m_name = fn_name r, m_qualname = fn_qualname r, m_doc = fn_doc r\<rparr>"
| "metadata (Bound f self) = metadata f"
| "metadata (Wrapper f) = update_wrapper wrapper_meta (metadata f)"

text \<open>\<^verbatim>\<open>isinstance(c, types.FunctionType)\<close> and \<^verbatim>\<open>isinstance(c, types.MethodType)\<close>.\<close>

fun is_FunctionType :: "callable \<Rightarrow> bool" where
  "is_FunctionType (Fn r) = True"
| "is_FunctionType (Wrapper f) = True"
| "is_FunctionType (Bound f self) = False"

fun is_MethodType :: "callable \<Rightarrow> bool" where
  "is_MethodType (Bound f self) = True"
| "is_MethodType _ = False"

section \<open>Call Recorder: the start phase\<close>

text \<open>
  The values of the dictionary that \<^verbatim>\<open>wrapper\<close> hands to the worker thread: the
  callable, the queue created by this call of \<^verbatim>\<open>wrapper\<close>, or a plain value (the
  completion URL, and whatever the caller passed by keyword).
\<close>

datatype targ = Val pyval | Func callable | Queue

definition func_object :: "callable \<Rightarrow> pyval" where
  "func_object c =
     PObject [(''__module__'', PStr (m_module (metadata c))),
              (''__name__'', PStr (m_name (metadata c))),
              (''__qualname__'', PStr (m_qualname (metadata c))),
              (''__doc__'', opt_str (m_doc (metadata c)))]"

fun targ_val :: "targ \<Rightarrow> pyval" where
  "targ_val (Val v) = v"
| "targ_val (Func c) = func_object c"
| "targ_val Queue = PObject [(''__module__'', PStr ''queue'')]"

text \<open>
  The dictionary literal
  \<^verbatim>\<open>{"completion_url": completion_url, "func": func, "result_queue": result_queue, **kwargs}\<close>:
  a keyword argument of the caller with one of the three names replaces the
  wrapper's own entry.
\<close>

definition thread_kwargs :: "string \<Rightarrow> callable \<Rightarrow> kwargs \<Rightarrow> (string \<times> targ) list" where
  "thread_kwargs completion_url func kwargs =
     dict_merge
       [(''completion_url'', Val (PStr completion_url)), (''func'', Func func),
        (''result_queue'', Queue)]
       (map (\<lambda>(k, v). (k, Val v)) kwargs)"

text \<open>
  The dictionary \<^verbatim>\<open>log_row\<close> of \<^verbatim>\<open>log_async\<close>, its entries evaluated in the order
  of the source. Only the keyword arguments \<open>kw\<close> reach \<^verbatim>\<open>json.dumps\<close>; the
  positional arguments of the call are not passed to \<^verbatim>\<open>log_async\<close> at all.
\<close>

definition start_row :: "env \<Rightarrow> world \<Rightarrow> targ \<Rightarrow> (string \<times> targ) list \<Rightarrow> kwargs res" where
  "start_row env w func kw =
     then_res (getattr (targ_val func) ''__module__'') (\<lambda>orig_module.
     then_res (getattr (targ_val func) ''__qualname__'') (\<lambda>orig_qualname.
     then_res (json_dumps (PDict (map (\<lambda>(k, t). (k, targ_val t)) kw))) (\<lambda>request.
     Ret [(''status'', PStr ''started''),
          (''orig_module'', orig_module),
          (''orig_qualname'', orig_qualname),
          (''request'', PStr request),
          (''session_id'', sessionID w),
          (''organization_id'', opt_str (org_id env))])))"

text \<open>
  \<^verbatim>\<open>log_async(completion_url, func, **kwargs)\<close>: one request for a completion
  identifier, then the record with status \<^verbatim>\<open>started\<close>, sent to
  \<^verbatim>\<open>completion_url + "/" + completionID\<close> for the target \<^verbatim>\<open>log10\<close>, inserted with
  an identifier and a time stamp of its own for the target \<^verbatim>\<open>bigquery\<close>, and not sent
  for any other target. The text of the row in the message of \<^verbatim>\<open>logging.error\<close> is
  left out. The function is written in two parts: \<open>log_started\<close> is what follows the
  answer \<open>res\<close> to the first request.
\<close>

definition log_started ::
  "env \<Rightarrow> targ \<Rightarrow> targ \<Rightarrow> (string \<times> targ) list \<Rightarrow> response \<Rightarrow> world \<Rightarrow> pyval res \<times> world" where
  "log_started env completion_url func kw res w1 =
     then_do (pure_do (then_res (response_json res) (\<lambda>j. subscript j ''completionID'')) w1)
       (\<lambda>completionID w2.
     then_do (pure_do (start_row env w2 func kw) w2) (\<lambda>log_row w3.
     then_do
       (if target_service env = Some ''log10'' then
          then_do (pure_do (then_res (add_str (targ_val completion_url) (PStr ''/''))
                              (\<lambda>u. add_str u completionID)) w3) (\<lambda>u w4.
          then_do (request_post env u (PDict log_row) w4) (\<lambda>res2 w5. (Ret (), w5)))
        else if target_service env = Some ''bigquery'' then
          try_log ''failed to insert in Bigquery: ''
            (insert_rows_json env
               (PDict (dict_set (dict_set log_row ''id'' (PStr (uuid4 env)))
                         ''created_at'' (PStr (utc_now env)))) w3)
        else (Ret (), w3))
       (\<lambda>done w6. (Ret completionID, w6))))"

definition log_async ::
  "env \<Rightarrow> targ \<Rightarrow> targ \<Rightarrow> (string \<times> targ) list \<Rightarrow> world \<Rightarrow> pyval res \<times> world" where
  "log_async env completion_url func kw w =
     then_do (request_post env (targ_val completion_url)
                (PDict [(''organization_id'', opt_str (org_id env))]) w)
       (log_started env completion_url func kw)"

text \<open>
  \<^verbatim>\<open>run_async_in_thread(completion_url, func, result_queue, **kwargs)\<close>, called by
  the thread with the dictionary above as keyword arguments. Nothing catches what
  \<^verbatim>\<open>log_async\<close> raises: the thread ends and nothing is put. The result says what
  arrives on the queue of \<^verbatim>\<open>wrapper\<close>: an identifier put on an object that the caller
  passed as \<^verbatim>\<open>result_queue\<close> does not arrive there.
\<close>

definition run_async_in_thread ::
  "env \<Rightarrow> (string \<times> targ) list \<Rightarrow> world \<Rightarrow> pyval option \<times> world" where
  "run_async_in_thread env d w =
     (case (dict_get d ''completion_url'', dict_get d ''func'', dict_get d ''result_queue'') of
        (Some completion_url, Some func, Some result_queue) \<Rightarrow>
          (case log_async env completion_url func
                  (dict_without [''completion_url'', ''func'', ''result_queue''] d) w of
             (Ret result, w') \<Rightarrow>
               (case result_queue of Queue \<Rightarrow> (Some result, w') | other \<Rightarrow> (None, w'))
           | (failed, w') \<Rightarrow> (None, w'))
      | missing \<Rightarrow> (None, w))"

section \<open>Interception Wrapper\<close>

text \<open>
  \<^verbatim>\<open>while result_queue.empty(): pass\<close>. The argument says what the \<open>k\<close>-th look at
  the queue finds; the loop returns the number of the first look that finds the queue
  filled, and has no value when there is none.
\<close>

partial_function (option) busy_poll :: "(nat \<Rightarrow> bool) \<Rightarrow> nat \<Rightarrow> nat option" where
  "busy_poll empty_at k = (if empty_at k then busy_poll empty_at (Suc k) else Some k)"

declare busy_poll.simps [code]

text \<open>
  What the main thread sees of the queue: empty for ever when the worker puts nothing;
  empty at the first \<open>d\<close> looks when it delivers.
\<close>

definition queue_empty :: "nat \<Rightarrow> pyval option \<Rightarrow> nat \<Rightarrow> bool" where
  "queue_empty d delivered k = (case delivered of None \<Rightarrow> True | Some c \<Rightarrow> k < d)"

fun stack_entry :: "frame \<Rightarrow> pyval" where
  "stack_entry (Frame filename line lineno name) =
     PDict [(''file'', PStr filename), (''line'', opt_str line),
            (''lineno'', PInt lineno), (''name'', PStr name)]"

definition finish_row :: "env \<Rightarrow> pyval \<Rightarrow> pyval \<Rightarrow> pyval res" where
  "finish_row env output stacktrace =
     then_res (json_dumps output) (\<lambda>response.
     then_res (json_dumps stacktrace) (\<lambda>st.
     Ret (PDict [(''response'', PStr response),
                 (''status'', PStr ''finished''),
                 (''duration'', PInt (elapsed_ms env)),
                 (''stacktrace'', PStr st)])))"

text \<open>The block \<^verbatim>\<open>result call duration (sync)\<close>: the record with status \<^verbatim>\<open>finished\<close>.\<close>

definition finish_phase ::
  "env \<Rightarrow> string \<Rightarrow> pyval \<Rightarrow> pyval \<Rightarrow> pyval \<Rightarrow> world \<Rightarrow> unit res \<times> world" where
  "finish_phase env completion_url completionID output stacktrace w =
     then_do (pure_do (finish_row env output stacktrace) w) (\<lambda>log_row w1.
       if target_service env = Some ''log10'' then
         then_do (pure_do (add_str (PStr (completion_url @ ''/'')) completionID) w1) (\<lambda>u w2.
         then_do (request_post env u log_row w2) (\<lambda>res w3. (Ret (), w3)))
       else if target_service env = Some ''bigquery'' then
         try_log ''failed to insert in Bigquery: '' (insert_rows_json env log_row w1)
       else (Ret (), w1))"

text \<open>
  \<^verbatim>\<open>except Exception as e: logging.error("failed", e)\<close>, followed by
  \<^verbatim>\<open>return output\<close>.
\<close>

definition handler :: "exn \<Rightarrow> pyval \<Rightarrow> world \<Rightarrow> pyval res \<times> world" where
  "handler e output w =
     (if is_Exception e then (Ret output, emit (Log_error ''failed'') w) else (Raise e, w))"

text \<open>
  The body of \<^verbatim>\<open>wrapper(*args, **kwargs)\<close>; \<open>invoke\<close> is the call of \<^verbatim>\<open>func\<close>. The
  worker thread is run to its end at the point where it is started: this fixes one of
  the possible interleavings of its requests with what \<^verbatim>\<open>func\<close> does. The main thread
  waits for it nowhere but in the polling loop. \<^verbatim>\<open>DEBUG\<close> is \<^verbatim>\<open>False\<close>, so
  \<^verbatim>\<open>timed_block\<close> only runs its body.
\<close>

definition wrapper ::
  "env \<Rightarrow> callable \<Rightarrow> (pyval list \<Rightarrow> kwargs \<Rightarrow> world \<Rightarrow> pyval res \<times> world) \<Rightarrow>
   pyval list \<Rightarrow> kwargs \<Rightarrow> world \<Rightarrow> pyval res \<times> world" where
  "wrapper env func invoke args kwargs w =
     (let completion_url = url env @ ''/api/completions'';
          initial = PNone;
          (delivered, w1) = run_async_in_thread env (thread_kwargs completion_url func kwargs) w;
          stacktrace = PList (map stack_entry (extract_stack env))
      in case invoke args kwargs w1 of
           (Hang, w2) \<Rightarrow> (Hang, w2)
         | (Raise e, w2) \<Rightarrow> handler e initial w2
         | (Ret output, w2) \<Rightarrow>
             (case busy_poll (queue_empty (put_delay env) delivered) 0 of
                None \<Rightarrow> (Hang, emit (Call_returned output) w2)
              | Some polls \<Rightarrow>
                  (case delivered of
                     None \<Rightarrow> (Hang, emit (Call_returned output) w2)
                   | Some completionID \<Rightarrow>
                       (case finish_phase env completion_url completionID output stacktrace
                               (emit (Queue_get completionID) (emit (Call_returned output) w2)) of
                          (Ret u, w3) \<Rightarrow> (Ret output, w3)
                        | (Raise e, w3) \<Rightarrow> handler e output w3
                        | (Hang, w3) \<Rightarrow> (Hang, w3)))))"

definition intercepting_decorator :: "callable \<Rightarrow> callable" where
  "intercepting_decorator func = Wrapper func"

text \<open>Calling a callable. A function written with \<^verbatim>\<open>def\<close> has no effect of its own here.\<close>

fun call :: "env \<Rightarrow> callable \<Rightarrow> pyval list \<Rightarrow> kwargs \<Rightarrow> world \<Rightarrow> pyval res \<times> world" where
  "call env (Fn r) args kwargs w = (fn_body r args kwargs, w)"
| "call env (Bound f self) args kwargs w = call env f (self # args) kwargs w"
| "call env (Wrapper f) args kwargs w = wrapper env f (call env f) args kwargs w"

section \<open>Session Manager\<close>

text \<open>
  \<^verbatim>\<open>get_session_id()\<close>: whatever goes wrong inside the \<^verbatim>\<open>try\<close> as an
  \<^verbatim>\<open>Exception\<close> is raised again as
  \<^verbatim>\<open>Exception("Failed to create LOG10 session: " + str(e))\<close>.
\<close>

definition get_session_id :: "env \<Rightarrow> world \<Rightarrow> pyval res \<times> world" where
  "get_session_id env w =
     (case then_do (request_post env (PStr (url env @ ''/api/sessions''))
                      (PDict [(''organization_id'', opt_str (org_id env))]) w)
             (\<lambda>res w1. (then_res (response_json res) (\<lambda>j. subscript j ''sessionID''), w1)) of
        (Raise e, w1) \<Rightarrow>
          if is_Exception e
          then (Raise (Exception (''Failed to create LOG10 session: '' @ str_exn e)), w1)
          else (Raise e, w1)
      | other \<Rightarrow> other)"

text \<open>The class \<^verbatim>\<open>log10_session\<close>: its \<^verbatim>\<open>__enter__\<close> and its \<^verbatim>\<open>__exit__\<close>.\<close>

definition log10_session_enter :: "env \<Rightarrow> world \<Rightarrow> pyval res \<times> world" where
  "log10_session_enter env w =
     then_do (get_session_id env w) (\<lambda>sid w1. (Ret PNone, w1\<lparr>sessionID := sid\<rparr>))"

definition log10_session_exit :: "exn option \<Rightarrow> world \<Rightarrow> pyval res \<times> world" where
  "log10_session_exit exc w = (Ret PNone, w)"

fun truthy :: "pyval \<Rightarrow> bool" where
  "truthy PNone = False"
| "truthy (PBool b) = b"
| "truthy (PInt i) = (i \<noteq> 0)"
| "truthy (PStr s) = (s \<noteq> [])"
| "truthy (PList xs) = (xs \<noteq> [])"
| "truthy (PDict d) = (d \<noteq> [])"
| "truthy (PObject attrs) = True"

text \<open>
  Python's \<^verbatim>\<open>with cm: body\<close>. When \<^verbatim>\<open>__enter__\<close> raises, neither the body nor
  \<^verbatim>\<open>__exit__\<close> runs. When the body raises, \<^verbatim>\<open>__exit__\<close> gets the exception, and the
  exception is dropped only if \<^verbatim>\<open>__exit__\<close> returns a true value.
\<close>

definition with_stmt ::
  "(world \<Rightarrow> pyval res \<times> world) \<Rightarrow> (exn option \<Rightarrow> world \<Rightarrow> pyval res \<times> world) \<Rightarrow>
   (world \<Rightarrow> unit res \<times> world) \<Rightarrow> world \<Rightarrow> unit res \<times> world" where
  "with_stmt enter exit body w =
     then_do (enter w) (\<lambda>entered w1.
       case body w1 of
         (Ret u, w2) \<Rightarrow> then_do (exit None w2) (\<lambda>r w3. (Ret (), w3))
       | (Raise e, w2) \<Rightarrow>
           then_do (exit (Some e) w2) (\<lambda>r w3. if truthy r then (Ret (), w3) else (Raise e, w3))
       | (Hang, w2) \<Rightarrow> (Hang, w2))"

definition with_log10_session :: "env \<Rightarrow> (world \<Rightarrow> unit res \<times> world) \<Rightarrow> world \<Rightarrow> unit res \<times> world" where
  "with_log10_session env body w = with_stmt (log10_session_enter env) log10_session_exit body w"

section \<open>Instrumentation Scanner\<close>

text \<open>
  What \<^verbatim>\<open>vars(module)\<close> and \<^verbatim>\<open>vars(cls)\<close> hold under a name: a callable (a function
  or a bound method), a \<^verbatim>\<open>classmethod\<close> object with its \<^verbatim>\<open>__func__\<close>, a
  \<^verbatim>\<open>staticmethod\<close> object with its \<^verbatim>\<open>__func__\<close>, a class with its own \<^verbatim>\<open>vars\<close>, or
  anything else. A class is a value here: a class object reachable under two names, or
  from itself, is outside this model.
\<close>

datatype member =
    Callable callable
  | Classmethod callable
  | Staticmethod callable
  | Class "(string \<times> member) list"
  | Data pyval

text \<open>\<^verbatim>\<open>setattr(obj, name, value)\<close> on a module or a class.\<close>

definition setattr :: "(string \<times> member) list \<Rightarrow> string \<Rightarrow> member \<Rightarrow> (string \<times> member) list" where
  "setattr obj name v = dict_set obj name v"

text \<open>
  \<^verbatim>\<open>intercept_class_methods(cls)\<close>: the loop goes over the items of \<^verbatim>\<open>vars(cls)\<close>
  and stores into \<open>cls\<close>; a nested class is changed in place, which for a value
  means storing the changed class under its name.
\<close>

fun intercept_class_methods :: "(string \<times> member) list \<Rightarrow> (string \<times> member) list"
  and intercept_items :: "(string \<times> member) list \<Rightarrow> (string \<times> member) list \<Rightarrow> (string \<times> member) list" where
  "intercept_class_methods cls = intercept_items cls cls"
| "intercept_items [] cls = cls"
| "intercept_items ((method_name, method) # items) cls =
     intercept_items items
       (case method of
          Classmethod original_method \<Rightarrow>
            setattr cls method_name (Classmethod (intercepting_decorator original_method))
        | Callable c \<Rightarrow>
            if is_FunctionType c \<or> is_MethodType c
            then setattr cls method_name (Callable (intercepting_decorator c))
            else cls
        | Class nested \<Rightarrow> setattr cls method_name (Class (intercept_class_methods nested))
        | other \<Rightarrow> cls)"

text \<open>\<^verbatim>\<open>log10(module)\<close>: the loop over the items of \<^verbatim>\<open>vars(module)\<close>.\<close>

fun log10_items :: "(string \<times> member) list \<Rightarrow> (string \<times> member) list \<Rightarrow> (string \<times> member) list" where
  "log10_items [] mdl = mdl"
| "log10_items ((name, attr) # items) mdl =
     log10_items items
       (case attr of
          Callable c \<Rightarrow>
            if is_FunctionType c then setattr mdl name (Callable (intercepting_decorator c))
            else mdl
        | Class cls \<Rightarrow> setattr mdl name (Class (intercept_class_methods cls))
        | other \<Rightarrow> mdl)"

definition log10 :: "(string \<times> member) list \<Rightarrow> (string \<times> member) list" where
  "log10 mdl = log10_items mdl mdl"

section \<open>A sample configuration\<close>

text \<open>
  A module \<^verbatim>\<open>calc\<close> with \<^verbatim>\<open>def add(a, b): return a + b\<close>, a function that leaves
  with \<^verbatim>\<open>sys.exit\<close>, one that raises \<^verbatim>\<open>ValueError\<close>, and a class; a backend
  that answers every request with fresh identifiers; one that refuses every
  connection; one that never answers.
\<close>

definition add_fn :: fn where
  "add_fn =
     \<lparr>fn_module = ''calc'', fn_name = ''add'', fn_qualname = ''add'',
      fn_doc = Some ''Add two numbers.'',
      fn_body = (\<lambda>args kwargs.
        case args of
          [PInt a, PInt b] \<Rightarrow> Ret (PInt (a + b))
        | other \<Rightarrow> Raise (Exception ''TypeError: add() takes 2 positional arguments''))\<rparr>"

definition quit_fn :: fn where
  "quit_fn =
     \<lparr>fn_module = ''calc'', fn_name = ''quit'', fn_qualname = ''quit'', fn_doc = None,
      fn_body = (\<lambda>args kwargs. Raise (BaseException ''SystemExit: 1''))\<rparr>"

definition fail_fn :: fn where
  "fail_fn =
     \<lparr>fn_module = ''calc'', fn_name = ''fail'', fn_qualname = ''fail'', fn_doc = None,
      fn_body = (\<lambda>args kwargs. Raise (Exception ''ValueError: bad input''))\<rparr>"

definition echo_fn :: fn where
  "echo_fn =
     \<lparr>fn_module = ''calc'', fn_name = ''echo'', fn_qualname = ''Calc.echo'', fn_doc = None,
      fn_body = (\<lambda>args kwargs. Ret (PDict kwargs))\<rparr>"

definition answering :: "event list \<Rightarrow> string \<Rightarrow> pyval \<Rightarrow> response res" where
  "answering sent u body =
     Ret (Json (PDict [(''completionID'', PStr (''c'' @ show_nat (length sent))),
                       (''sessionID'', PStr (''s'' @ show_nat (length sent)))]))"

definition demo_env :: env where
  "demo_env =
     \<lparr>url = ''https://log10.io'', token = Some ''secret'', org_id = Some ''org'',
      target_service = Some ''log10'', backend = answering,
      bigquery = (\<lambda>sent row. Ret ()), put_delay = 2, elapsed_ms = 7,
      extract_stack = [Frame ''main.py'' (Some ''add(2, 3)'') 3 ''<module>''],
      uuid4 = ''00000000-0000-4000-8000-000000000000'',
      utc_now = ''2023-06-01T00:00:00+00:00''\<rparr>"

definition down_env :: env where
  "down_env = demo_env\<lparr>backend := (\<lambda>sent u body. Raise (Exception ''ConnectionError''))\<rparr>"

definition hung_env :: env where
  "hung_env = demo_env\<lparr>backend := (\<lambda>sent u body. Hang)\<rparr>"

definition world0 :: world where
  "world0 = \<lparr>sessionID = PStr ''s-initial'', trace = []\<rparr>"

definition calc_class :: "(string \<times> member) list" where
  "calc_class =
     [(''__doc__'', Data PNone),
      (''echo'', Callable (Fn echo_fn)),
      (''make'', Classmethod (Fn add_fn)),
      (''helper'', Staticmethod (Fn add_fn)),
      (''Inner'', Class [(''fail'', Callable (Fn fail_fn))])]"

definition calc_module :: "(string \<times> member) list" where
  "calc_module =
     [(''__name__'', Data (PStr ''calc'')),
      (''add'', Callable (Fn add_fn)),
      (''Calc'', Class calc_class)]"

section \<open>Reading a trace\<close>

text \<open>The events that a step added to the trace.\<close>

definition new_events :: "world \<Rightarrow> world \<Rightarrow> event list" where
  "new_events w w' = drop (length (trace w)) (trace w')"

text \<open>The record that an event carries to the backend, and a field of it.\<close>

fun record_of :: "event \<Rightarrow> pyval option" where
  "record_of (Http_post u t body) = Some body"
| "record_of (Bq_insert row) = Some row"
| "record_of other = None"

definition field :: "event \<Rightarrow> string \<Rightarrow> pyval option" where
  "field e k = (case record_of e of Some (PDict d) \<Rightarrow> dict_get d k | other \<Rightarrow> None)"

definition is_started :: "event \<Rightarrow> bool" where
  "is_started e = (field e ''status'' = Some (PStr ''started''))"

definition is_finished :: "event \<Rightarrow> bool" where
  "is_finished e = (field e ''status'' = Some (PStr ''finished''))"


text \<open>How many times \<^verbatim>\<open>intercepting_decorator\<close> has been applied.\<close>

fun layers :: "callable \<Rightarrow> nat" where
  "layers (Fn r) = 0"
| "layers (Bound f self) = layers f"
| "layers (Wrapper f) = Suc (layers f)"

text \<open>An outcome other than hanging and other than an exception that no handler here catches.\<close>

fun responsive :: "'a res \<Rightarrow> bool" where
  "responsive (Ret v) = True"
| "responsive (Raise e) = is_Exception e"
| "responsive Hang = False"

definition reserved :: "string list" where
  "reserved = [''completion_url'', ''func'', ''result_queue'']"

text \<open>
  A step from \<open>w\<close> to \<open>w'\<close> that leaves the session alone and adds to the trace only
  events of the kind \<open>A\<close>.
\<close>

definition only :: "(event \<Rightarrow> bool) \<Rightarrow> world \<Rightarrow> world \<Rightarrow> bool" where
  "only A w w' = (\<exists>evs. w' = w\<lparr>trace := trace w @ evs\<rparr> \<and> list_all A evs)"

text \<open>
  The order that claim C4 asks for, for the event at position \<open>i\<close> of a trace:
  before it, the return of the wrapped callable and then the receipt of an identifier
  \<open>cid\<close>; and a request, if the event is one, goes to the URL \<open>cu\<close> extended by
  \<open>cid\<close>.
\<close>

definition url_ok :: "string \<Rightarrow> pyval \<Rightarrow> event \<Rightarrow> bool" where
  "url_ok cu cid e = (\<forall>u t b. e = Http_post u t b \<longrightarrow> (\<exists>s. cid = PStr s \<and> u = cu @ ''/'' @ s))"

definition preceded :: "string \<Rightarrow> event list \<Rightarrow> nat \<Rightarrow> bool" where
  "preceded cu evs i =
     (\<exists>j k out cid. j < k \<and> k < i \<and> evs ! j = Call_returned out \<and> evs ! k = Queue_get cid
        \<and> url_ok cu cid (evs ! i))"

definition ordered :: "string \<Rightarrow> event list \<Rightarrow> bool" where
  "ordered cu evs = (\<forall>i<length evs. is_finished (evs ! i) \<longrightarrow> preceded cu evs i)"

text \<open>What claim C5 leaves of a record with status \<^verbatim>\<open>started\<close>.\<close>

definition started_ok :: "env \<Rightarrow> meta \<Rightarrow> pyval \<Rightarrow> kwargs \<Rightarrow> event \<Rightarrow> bool" where
  "started_ok env m sid kwargs e =
     (is_started e \<longrightarrow>
        field e ''orig_module'' = Some (PStr (m_module m))
      \<and> field e ''orig_qualname'' = Some (PStr (m_qualname m))
      \<and> field e ''request'' = Some (PStr (encode (PDict kwargs)))
      \<and> field e ''session_id'' = Some sid
      \<and> field e ''organization_id'' = Some (opt_str (org_id env)))"

section \<open>Properties\<close>

subsection \<open>Dictionaries\<close>

lemma dict_get_dict_set: "dict_get (dict_set d k v) n = (if n = k then Some v else dict_get d n)"
  by (induction d) auto


lemma dict_get_None_iff: "dict_get d k = None \<longleftrightarrow> k \<notin> fst ` set d"
  by (induction d) (auto simp: image_iff split: if_splits)

subsection \<open>The scanner, member by member\<close>

lemma callable_kind: "is_FunctionType c \<or> is_MethodType c"
  by (cases c) auto

lemma wrapper_is_new: "Wrapper f \<noteq> f"
  by (induction f) auto

lemma metadata_Wrapper: "metadata (Wrapper f) = metadata f"
  by (simp add: update_wrapper_def wrapper_meta_def)

lemma intercept_items_get:
  "distinct (map fst items) \<Longrightarrow>
   dict_get (intercept_items items cls) n =
     (case dict_get items n of
        None \<Rightarrow> dict_get cls n
      | Some (Classmethod f) \<Rightarrow> Some (Classmethod (intercepting_decorator f))
      | Some (Callable c) \<Rightarrow> Some (Callable (intercepting_decorator c))
      | Some (Class nested) \<Rightarrow> Some (Class (intercept_class_methods nested))
      | Some other \<Rightarrow> dict_get cls n)"
proof (induction items arbitrary: cls)
  case Nil
  then show ?case by simp
next
  case (Cons item items)
  obtain k m where item: "item = (k, m)" by (cases item)
  from Cons.prems have d: "distinct (map fst items)" and k: "dict_get items k = None"
    by (auto simp: item dict_get_None_iff)
  show ?case
    using Cons.IH[OF d] k callable_kind
    by (cases m) (auto simp: item setattr_def dict_get_dict_set split: option.splits member.splits)
qed

lemma intercept_class_methods_get:
  "distinct (map fst cls) \<Longrightarrow>
   dict_get (intercept_class_methods cls) n =
     (case dict_get cls n of
        None \<Rightarrow> None
      | Some (Classmethod f) \<Rightarrow> Some (Classmethod (intercepting_decorator f))
      | Some (Callable c) \<Rightarrow> Some (Callable (intercepting_decorator c))
      | Some (Class nested) \<Rightarrow> Some (Class (intercept_class_methods nested))
      | Some other \<Rightarrow> Some other)"
  by (simp add: intercept_class_methods.simps intercept_items_get
      split: option.splits member.splits)



declare intercept_class_methods.simps [simp del]

lemma log10_items_get:
  "distinct (map fst items) \<Longrightarrow>
   dict_get (log10_items items mdl) n =
     (case dict_get items n of
        None \<Rightarrow> dict_get mdl n
      | Some (Callable c) \<Rightarrow>
          if is_FunctionType c then Some (Callable (intercepting_decorator c)) else dict_get mdl n
      | Some (Class cls) \<Rightarrow> Some (Class (intercept_class_methods cls))
      | Some other \<Rightarrow> dict_get mdl n)"
proof (induction items arbitrary: mdl)
  case Nil
  then show ?case by simp
next
  case (Cons item items)
  obtain k m where item: "item = (k, m)" by (cases item)
  from Cons.prems have d: "distinct (map fst items)" and k: "dict_get items k = None"
    by (auto simp: item dict_get_None_iff)
  show ?case
    using Cons.IH[OF d] k
    by (cases m) (auto simp: item setattr_def dict_get_dict_set split: option.splits member.splits)
qed


lemma log10_get:
  "distinct (map fst mdl) \<Longrightarrow>
   dict_get (log10 mdl) n =
     (case dict_get mdl n of
        None \<Rightarrow> None
      | Some (Callable c) \<Rightarrow>
          if is_FunctionType c then Some (Callable (intercepting_decorator c)) else Some (Callable c)
      | Some (Class cls) \<Rightarrow> Some (Class (intercept_class_methods cls))
      | Some other \<Rightarrow> Some other)"
  by (simp add: log10_def log10_items_get split: option.splits member.splits)


lemma call_unwrapped: "layers f = 0 \<Longrightarrow> snd (call env f args kwargs w) = w"
  by (induction f arbitrary: args) auto



text \<open>
  Claim C9. A function that \<^verbatim>\<open>log10(module)\<close> replaces at the top level of the
  module, and a function or the function of a \<^verbatim>\<open>classmethod\<close> that
  \<^verbatim>\<open>intercept_class_methods\<close> replaces in a class, is replaced by another object
  whose \<^verbatim>\<open>__module__\<close>, \<^verbatim>\<open>__name__\<close>, \<^verbatim>\<open>__qualname__\<close> and \<^verbatim>\<open>__doc__\<close> (the four
  fields of \<open>meta\<close>) are those of the original.
\<close>

theorem scanner_keeps_metadata:
  assumes "distinct (map fst ms)"
  shows "(dict_get ms n = Some (Callable f) \<and> is_FunctionType f \<longrightarrow>
           (\<exists>g. dict_get (log10 ms) n = Some (Callable g) \<and> g \<noteq> f \<and> metadata g = metadata f))
    \<and> (dict_get ms n = Some (Callable f) \<longrightarrow>
           (\<exists>g. dict_get (intercept_class_methods ms) n = Some (Callable g) \<and> g \<noteq> f
                \<and> metadata g = metadata f))
    \<and> (dict_get ms n = Some (Classmethod f) \<longrightarrow>
           (\<exists>g. dict_get (intercept_class_methods ms) n = Some (Classmethod g) \<and> g \<noteq> f
                \<and> metadata g = metadata f))"
  using assms wrapper_is_new[of f]
  by (auto simp: log10_get intercept_class_methods_get intercepting_decorator_def
      metadata_Wrapper simp del: metadata.simps)

theorem scanner_keeps_metadata_witness:
  "distinct (map fst calc_module)
   \<and> dict_get calc_module ''add'' = Some (Callable (Fn add_fn)) \<and> is_FunctionType (Fn add_fn)
   \<and> (\<exists>g. dict_get (log10 calc_module) ''add'' = Some (Callable g) \<and> g \<noteq> Fn add_fn
          \<and> m_module (metadata g) = ''calc'' \<and> m_name (metadata g) = ''add''
          \<and> m_qualname (metadata g) = ''add'' \<and> m_doc (metadata g) = Some ''Add two numbers.'')"
proof -
  have d: "distinct (map fst calc_module)"
    by (simp add: calc_module_def)
  have a: "dict_get calc_module ''add'' = Some (Callable (Fn add_fn))"
    by (simp add: calc_module_def)
  from scanner_keeps_metadata[OF d, of "''add''" "Fn add_fn"] a
  obtain g where "dict_get (log10 calc_module) ''add'' = Some (Callable g)" "g \<noteq> Fn add_fn"
    "metadata g = metadata (Fn add_fn)"
    by auto
  then show ?thesis
    using d a by (auto simp: add_fn_def)
qed

text \<open>
  Claim C10. A member of a processed class that is a \<^verbatim>\<open>staticmethod\<close> object is
  left as it is: no intercepted version takes its place. As long as its function is
  not itself an intercepted version, calling it has no effect on the trace: nothing
  is sent and nothing is logged.
\<close>

theorem staticmethod_untouched:
  assumes "distinct (map fst cls)" and "dict_get cls n = Some (Staticmethod f)"
  shows "dict_get (intercept_class_methods cls) n = Some (Staticmethod f)
         \<and> (layers f = 0 \<longrightarrow> new_events w (snd (call env f args kwargs w)) = [])"
  using assms by (simp add: intercept_class_methods_get call_unwrapped new_events_def)

theorem staticmethod_untouched_witness:
  "distinct (map fst calc_class) \<and> dict_get calc_class ''helper'' = Some (Staticmethod (Fn add_fn))
   \<and> dict_get (intercept_class_methods calc_class) ''helper'' = Some (Staticmethod (Fn add_fn))
   \<and> layers (Fn add_fn) = 0
   \<and> new_events world0 (snd (call demo_env (Fn add_fn) [PInt 2, PInt 3] [] world0)) = []"
proof -
  have d: "distinct (map fst calc_class)"
    and h: "dict_get calc_class ''helper'' = Some (Staticmethod (Fn add_fn))"
    by (simp_all add: calc_class_def)
  show ?thesis
    using d h staticmethod_untouched[OF d h, of world0 demo_env "[PInt 2, PInt 3]" "[]"]
    by simp
qed

subsection \<open>Sequencing and the polling loop\<close>

lemma then_do_simps [simp]:
  "then_do (Ret v, w) k = k v w"
  "then_do (Raise e, w) k = (Raise e, w)"
  "then_do (Hang, w) k = (Hang, w)"
  by (simp_all add: then_do_def)

lemma then_res_simps [simp]:
  "then_res (Ret v) k = k v"
  "then_res (Raise e) k = Raise e"
  "then_res Hang k = Hang"
  by (simp_all add: then_res_def)

lemma only_refl [simp]: "only A w w"
  by (auto simp: only_def intro: exI[of _ "[]"])

lemma only_emit: "A e \<Longrightarrow> only A w (emit e w)"
  by (auto simp: only_def emit_def intro: exI[of _ "[e]"])

lemma only_trans: "only A w w1 \<Longrightarrow> only A w1 w2 \<Longrightarrow> only A w w2"
  unfolding only_def
proof (elim exE conjE)
  fix a b
  assume "w1 = w\<lparr>trace := trace w @ a\<rparr>" "list_all A a" "w2 = w1\<lparr>trace := trace w1 @ b\<rparr>" "list_all A b"
  then show "\<exists>evs. w2 = w\<lparr>trace := trace w @ evs\<rparr> \<and> list_all A evs"
    by (intro exI[of _ "a @ b"]) simp
qed

lemma only_then_do:
  assumes "only A w (snd m)"
    and "\<And>v w1. m = (Ret v, w1) \<Longrightarrow> only A w1 (snd (k v w1))"
  shows "only A w (snd (then_do m k))"
proof (cases m)
  case (Pair r w1)
  show ?thesis
  proof (cases r)
    case (Ret v)
    with Pair assms(1) assms(2)[of v w1] show ?thesis
      by (auto intro: only_trans)
  qed (use Pair assms(1) in auto)
qed

lemma only_pure_do [simp]: "only A w (snd (pure_do r w))"
  by (simp add: pure_do_def)

lemma only_request_post:
  assumes "\<And>s. u = PStr s \<Longrightarrow> serializable body \<Longrightarrow> A (Http_post s (token env) body)"
  shows "only A w (snd (request_post env u body w))"
  using assms by (auto simp: request_post_def intro: only_emit split: pyval.splits)

lemma only_insert_rows_json:
  "A (Bq_insert row) \<Longrightarrow> only A w (snd (insert_rows_json env row w))"
  by (simp add: insert_rows_json_def only_emit)

lemma only_try_log:
  assumes "only A w (snd m)" and "\<And>t. A (Log_error t)"
  shows "only A w (snd (try_log msg m))"
proof (cases m)
  case (Pair r w1)
  with assms show ?thesis
    by (cases r) (auto simp: try_log_def intro: only_trans only_emit)
qed

lemma pure_do_eq [simp]: "pure_do r w = (r', w') \<longleftrightarrow> r' = r \<and> w' = w"
  by (auto simp: pure_do_def)

lemma start_row_trace [simp]: "start_row env (w\<lparr>trace := t\<rparr>) func kw = start_row env w func kw"
  by (simp add: start_row_def)

lemma only_sessionID: "only A w w' \<Longrightarrow> sessionID w' = sessionID w"
  by (auto simp: only_def)

lemma request_post_world:
  "request_post env u body w = (r, w') \<Longrightarrow> only (\<lambda>e. True) w w'"
  using only_request_post[of u body "\<lambda>e. True" env w] by simp

lemma only_log_started:
  assumes w1: "sessionID w1 = sessionID w"
    and post2: "\<And>s c row. targ_val cu = PStr s \<Longrightarrow> start_row env w func kw = Ret row \<Longrightarrow>
            A (Http_post (s @ ''/'' @ c) (token env) (PDict row))"
    and bq: "\<And>row. start_row env w func kw = Ret row \<Longrightarrow>
            A (Bq_insert (PDict (dict_set (dict_set row ''id'' (PStr (uuid4 env)))
                                   ''created_at'' (PStr (utc_now env)))))"
    and log: "\<And>t. A (Log_error t)"
  shows "only A w1 (snd (log_started env cu func kw res w1))"
  unfolding log_started_def
proof (intro only_then_do only_pure_do, goal_cases)
  case (1 cid w2 row w3)
  then have row: "start_row env w func kw = Ret row"
    using w1 by (simp add: start_row_def)
  show ?case
  proof (cases "target_service env = Some ''log10''")
    case True
    show ?thesis
      unfolding if_P[OF True]
    proof (intro only_then_do only_request_post only_pure_do, goal_cases)
      case (1 u w4 s)
      then obtain s0 c where "targ_val cu = PStr s0" "s = s0 @ ''/'' @ c"
        by (cases "targ_val cu"; cases cid) auto
      then show ?case using post2[OF _ row] by simp
    next
      case (2 u w4 res2 w5)
      then show ?case by simp
    qed
  next
    case False
    then show ?thesis
      by (auto intro!: only_try_log only_insert_rows_json bq[OF row] log)
  qed
next
  case (2 cid w2 row w3 d w6)
  then show ?case by simp
qed

lemma only_log_async:
  assumes post1: "\<And>s. targ_val cu = PStr s \<Longrightarrow>
            A (Http_post s (token env) (PDict [(''organization_id'', opt_str (org_id env))]))"
    and post2: "\<And>s c row. targ_val cu = PStr s \<Longrightarrow> start_row env w func kw = Ret row \<Longrightarrow>
            A (Http_post (s @ ''/'' @ c) (token env) (PDict row))"
    and bq: "\<And>row. start_row env w func kw = Ret row \<Longrightarrow>
            A (Bq_insert (PDict (dict_set (dict_set row ''id'' (PStr (uuid4 env)))
                                   ''created_at'' (PStr (utc_now env)))))"
    and log: "\<And>t. A (Log_error t)"
  shows "only A w (snd (log_async env cu func kw w))"
  unfolding log_async_def
proof (intro only_then_do only_request_post, goal_cases)
  case (1 s)
  from 1(1) show ?case by (rule post1)
next
  case (2 res w1)
  then have "sessionID w1 = sessionID w"
    by (auto dest!: request_post_world simp: only_sessionID)
  then show ?case
    by (intro only_log_started) (use post2 bq log in auto)
qed

lemma only_run_async_in_thread:
  assumes "\<And>cu func. dict_get d ''completion_url'' = Some cu \<Longrightarrow> dict_get d ''func'' = Some func \<Longrightarrow>
             only A w (snd (log_async env cu func
                              (dict_without [''completion_url'', ''func'', ''result_queue''] d) w))"
  shows "only A w (snd (run_async_in_thread env d w))"
proof -
  have "snd (run_async_in_thread env d w) = w \<or>
        (\<exists>cu func. dict_get d ''completion_url'' = Some cu \<and> dict_get d ''func'' = Some func \<and>
           snd (run_async_in_thread env d w)
             = snd (log_async env cu func
                      (dict_without [''completion_url'', ''func'', ''result_queue''] d) w))"
    by (auto simp: run_async_in_thread_def
        split: option.splits prod.splits res.splits targ.splits)
  with assms show ?thesis by auto
qed

lemma only_finish_phase:
  assumes post: "\<And>row s. finish_row env out st = Ret row \<Longrightarrow> cid = PStr s \<Longrightarrow>
             A (Http_post (cu @ ''/'' @ s) (token env) row)"
    and bq: "\<And>row. finish_row env out st = Ret row \<Longrightarrow> A (Bq_insert row)"
    and log: "\<And>t. A (Log_error t)"
  shows "only A w (snd (finish_phase env cu cid out st w))"
  unfolding finish_phase_def
proof (intro only_then_do only_pure_do, goal_cases)
  case (1 row w1)
  then have row: "finish_row env out st = Ret row" by simp
  show ?case
  proof (cases "target_service env = Some ''log10''")
    case True
    show ?thesis
      unfolding if_P[OF True]
    proof (intro only_then_do only_request_post only_pure_do, goal_cases)
      case (1 u w2 s)
      then obtain c where "cid = PStr c" "s = cu @ ''/'' @ c"
        by (cases cid) auto
      then show ?case using post[OF row] by simp
    next
      case (2 u w2 res w3)
      then show ?case by simp
    qed
  next
    case False
    then show ?thesis
      by (auto intro!: only_try_log only_insert_rows_json bq[OF row] log)
  qed
qed

lemma busy_poll_Some_D: "busy_poll q k = Some n \<Longrightarrow> k \<le> n \<and> \<not> q n"
proof (rule busy_poll.raw_induct[where P="\<lambda>q k n. k \<le> n \<and> \<not> q n"], goal_cases)
  case (1 f q k n)
  then show ?case by (auto split: if_splits dest: Suc_leD)
qed

lemma busy_poll_never: "busy_poll (\<lambda>j. True) k = None"
  using busy_poll_Some_D[of "\<lambda>j. True" k] by (cases "busy_poll (\<lambda>j. True) k") auto

lemma busy_poll_delay: "busy_poll (\<lambda>j. j < d) k = Some (max k d)"
proof (induction "d - k" arbitrary: k)
  case 0
  then show ?case by (subst busy_poll.simps) (simp add: max_def)
next
  case (Suc n)
  then have "k < d" by simp
  moreover have "busy_poll (\<lambda>j. j < d) (Suc k) = Some (max (Suc k) d)"
    using Suc by (intro Suc.hyps(1)) simp
  ultimately show ?case by (subst busy_poll.simps) (simp add: max_def)
qed

lemma busy_poll_queue:
  "busy_poll (queue_empty d delivered) 0 = (case delivered of None \<Rightarrow> None | Some c \<Rightarrow> Some d)"
proof (cases delivered)
  case None
  have "queue_empty d None = (\<lambda>j. True)"
    by (rule ext) (simp add: queue_empty_def)
  with None show ?thesis by (simp add: busy_poll_never)
next
  case (Some c)
  have "queue_empty d (Some c) = (\<lambda>j. j < d)"
    by (rule ext) (simp add: queue_empty_def)
  with Some show ?thesis by (simp add: busy_poll_delay)
qed

lemma wrapper_unfold:
  assumes "run_async_in_thread env (thread_kwargs (url env @ ''/api/completions'') f kwargs) w = (delivered, w1)"
    and "invoke args kwargs w1 = (r, w2)"
  shows "wrapper env f invoke args kwargs w =
     (case r of
        Hang \<Rightarrow> (Hang, w2)
      | Raise e \<Rightarrow> handler e PNone w2
      | Ret output \<Rightarrow>
          (case delivered of
             None \<Rightarrow> (Hang, emit (Call_returned output) w2)
           | Some completionID \<Rightarrow>
               (case finish_phase env (url env @ ''/api/completions'') completionID output
                       (PList (map stack_entry (extract_stack env)))
                       (emit (Queue_get completionID) (emit (Call_returned output) w2)) of
                  (Ret u, w3) \<Rightarrow> (Ret output, w3)
                | (Raise e, w3) \<Rightarrow> handler e output w3
                | (Hang, w3) \<Rightarrow> (Hang, w3))))"
  using assms
  by (simp add: wrapper_def busy_poll_queue Let_def split: res.splits option.splits prod.splits)

lemma only_handler: "A (Log_error ''failed'') \<Longrightarrow> only A w (snd (handler e out w))"
  by (simp add: handler_def only_emit)

lemma only_wrapper_tail:
  assumes start: "run_async_in_thread env (thread_kwargs (url env @ ''/api/completions'') f kwargs) w
                    = (delivered, w1)"
    and inv: "invoke args kwargs w1 = (r, w2)"
    and ret: "\<And>v. A (Call_returned v)"
    and get: "\<And>c. A (Queue_get c)"
    and log: "\<And>t. A (Log_error t)"
    and post: "\<And>out row s. finish_row env out (PList (map stack_entry (extract_stack env))) = Ret row
             \<Longrightarrow> A (Http_post (url env @ ''/api/completions'' @ ''/'' @ s) (token env) row)"
    and bq: "\<And>out row. finish_row env out (PList (map stack_entry (extract_stack env))) = Ret row
             \<Longrightarrow> A (Bq_insert row)"
  shows "only A w2 (snd (wrapper env f invoke args kwargs w))"
proof -
  note wu = wrapper_unfold[where invoke = invoke and args = args, OF start inv]
  show ?thesis
  proof (cases r)
  case (Ret out)
  show ?thesis
  proof (cases delivered)
    case None
    with Ret show ?thesis
      by (simp add: wu only_emit ret)
  next
    case (Some cid)
    let ?w4 = "emit (Queue_get cid) (emit (Call_returned out) w2)"
    let ?fin = "finish_phase env (url env @ ''/api/completions'') cid out
                  (PList (map stack_entry (extract_stack env))) ?w4"
    have a: "only A w2 ?w4"
      by (intro only_trans[OF only_emit only_emit] ret get)
    have b: "only A ?w4 (snd ?fin)"
      by (intro only_finish_phase) (use post bq log in auto)
    obtain r3 w3 where fin: "?fin = (r3, w3)" by (cases ?fin)
    with b have c: "only A ?w4 w3" by simp
    show ?thesis
      using only_trans[OF a c] only_trans[OF only_trans[OF a c] only_handler[of A w3, OF log]]
      by (cases r3) (simp_all add: wu Ret Some fin)
  qed
next
  case (Raise e)
  then show ?thesis
    by (simp add: wu only_handler log)
next
  case Hang
  then show ?thesis
    by (simp add: wu)
qed
qed



lemma fst_then_do_responsive:
  assumes "responsive (fst m)" and "\<And>v w1. m = (Ret v, w1) \<Longrightarrow> responsive (fst (k v w1))"
  shows "responsive (fst (then_do m k))"
proof (cases m)
  case (Pair r w1)
  with assms show ?thesis by (cases r) auto
qed

lemma responsive_add_str: "responsive (add_str a b)"
  by (cases "(a, b)" rule: add_str.cases) auto

lemma responsive_finish_row: "responsive (finish_row env out st)"
  by (auto simp: finish_row_def json_dumps_def)

lemma responsive_request_post:
  "(\<And>sent u b. responsive (backend env sent u b)) \<Longrightarrow> responsive (fst (request_post env u body w))"
  by (auto simp: request_post_def split: pyval.splits)

lemma responsive_try_log: "responsive (fst m) \<Longrightarrow> responsive (fst (try_log msg m))"
  by (cases m; cases "fst m") (auto simp: try_log_def)

lemma responsive_finish_phase:
  assumes "\<And>sent u b. responsive (backend env sent u b)"
    and "\<And>sent row. responsive (bigquery env sent row)"
  shows "responsive (fst (finish_phase env cu cid out st w))"
  unfolding finish_phase_def
  by (intro fst_then_do_responsive)
    (auto simp: pure_do_def responsive_finish_row responsive_add_str insert_rows_json_def assms
      intro!: fst_then_do_responsive responsive_request_post responsive_try_log)

lemmas run_defs =
  wrapper_def run_async_in_thread_def thread_kwargs_def log_async_def log_started_def
  start_row_def
  request_post_def insert_rows_json_def try_log_def finish_phase_def finish_row_def
  handler_def emit_def pure_do_def json_dumps_def json_string_def escape_char_def
  func_object_def update_wrapper_def wrapper_meta_def dict_without_def opt_str_def
  busy_poll_queue show_int_def show_nat.simps digit_char_def hex_char_def

lemmas demo_defs =
  demo_env_def down_env_def hung_env_def world0_def answering_def
  add_fn_def quit_fn_def fail_fn_def echo_fn_def

subsection \<open>What a call of the intercepted version gives back\<close>

text \<open>
  Claim C1, as stated, fails: with a backend that never answers, \<^verbatim>\<open>add(2, 3)\<close>
  returns \<open>5\<close>, and the intercepted \<^verbatim>\<open>add\<close> returns nothing: the worker waits for
  the answer, the queue stays empty, and the main thread polls for ever.
\<close>

theorem pass_through_counterexample:
  "call hung_env (Fn add_fn) [PInt 2, PInt 3] [] world0 = (Ret (PInt 5), world0)
   \<and> fst (call hung_env (Wrapper (Fn add_fn)) [PInt 2, PInt 3] [] world0) = Hang"
  by (simp add: run_defs demo_defs)

text \<open>
  Claim C1, amended. If \<^verbatim>\<open>f(*args, **kwargs)\<close> returns \<open>v\<close>, the intercepted
  version never returns a value other than \<open>v\<close>; and it does return \<open>v\<close> whenever
  the start phase puts a completion identifier on the queue and the backend and the
  warehouse client answer every request or fail it with an \<^verbatim>\<open>Exception\<close>. What
  happens when the start phase puts nothing on the queue is not part of this
  statement.
\<close>

theorem wrapper_pass_through:
  assumes start: "run_async_in_thread env (thread_kwargs (url env @ ''/api/completions'') f kwargs) w
                    = (delivered, w1)"
    and ret: "call env f args kwargs w1 = (Ret v, w2)"
  shows "(\<forall>x. fst (call env (Wrapper f) args kwargs w) = Ret x \<longrightarrow> x = v)
       \<and> (delivered \<noteq> None
            \<and> (\<forall>sent u b. responsive (backend env sent u b))
            \<and> (\<forall>sent row. responsive (bigquery env sent row))
          \<longrightarrow> fst (call env (Wrapper f) args kwargs w) = Ret v)"
proof -
  note wu = wrapper_unfold[where invoke = "call env f" and args = args, OF start ret]
  show ?thesis
  proof (cases delivered)
    case None
    then show ?thesis by (simp add: wu)
  next
    case (Some cid)
    let ?fin = "finish_phase env (url env @ ''/api/completions'') cid v
                  (PList (map stack_entry (extract_stack env)))
                  (emit (Queue_get cid) (emit (Call_returned v) w2))"
    obtain r3 w3 where fin: "?fin = (r3, w3)" by (cases ?fin)
    have "(\<forall>sent u b. responsive (backend env sent u b))
          \<and> (\<forall>sent row. responsive (bigquery env sent row)) \<longrightarrow> responsive r3"
      using responsive_finish_phase[of env "url env @ ''/api/completions''" cid v
          "PList (map stack_entry (extract_stack env))"
          "emit (Queue_get cid) (emit (Call_returned v) w2)"]
        fin by simp
    then show ?thesis
      by (cases r3) (auto simp: wu Some fin handler_def)
  qed
qed

theorem wrapper_pass_through_witness:
  "call demo_env (Fn add_fn) [PInt 2, PInt 3] []
     (snd (run_async_in_thread demo_env
            (thread_kwargs (url demo_env @ ''/api/completions'') (Fn add_fn) []) world0))
     = (Ret (PInt 5),
        snd (run_async_in_thread demo_env
              (thread_kwargs (url demo_env @ ''/api/completions'') (Fn add_fn) []) world0))
   \<and> fst (run_async_in_thread demo_env
            (thread_kwargs (url demo_env @ ''/api/completions'') (Fn add_fn) []) world0)
       = Some (PStr ''c0'')
   \<and> (\<forall>sent u b. responsive (backend demo_env sent u b))
   \<and> (\<forall>sent row. responsive (bigquery demo_env sent row))
   \<and> fst (call demo_env (Wrapper (Fn add_fn)) [PInt 2, PInt 3] [] world0) = Ret (PInt 5)"
proof -
  let ?start = "run_async_in_thread demo_env
                  (thread_kwargs (url demo_env @ ''/api/completions'') (Fn add_fn) []) world0"
  have ret: "call demo_env (Fn add_fn) [PInt 2, PInt 3] [] (snd ?start) = (Ret (PInt 5), snd ?start)"
    by (simp add: add_fn_def)
  have del: "fst ?start = Some (PStr ''c0'')"
    by (simp add: run_defs demo_defs)
  have resp1: "\<forall>sent u b. responsive (backend demo_env sent u b)"
    by (simp add: demo_env_def answering_def)
  have resp2: "\<forall>sent row. responsive (bigquery demo_env sent row)"
    by (simp add: demo_env_def)
  have "fst ?start \<noteq> None" using del by simp
  with wrapper_pass_through[OF prod.collapse[symmetric] ret] resp1 resp2
  have "fst (call demo_env (Wrapper (Fn add_fn)) [PInt 2, PInt 3] [] world0) = Ret (PInt 5)"
    by blast
  with ret del resp1 resp2 show ?thesis
    by blast
qed

text \<open>
  Claim C2, as stated, fails: a function that leaves with \<^verbatim>\<open>sys.exit(1)\<close> raises
  \<^verbatim>\<open>SystemExit\<close>, which \<^verbatim>\<open>except Exception\<close> does not catch, and the intercepted
  version raises it to its caller.
\<close>

theorem swallow_counterexample:
  "fst (call demo_env (Fn quit_fn) [] [] world0) = Raise (BaseException ''SystemExit: 1'')
   \<and> fst (call demo_env (Wrapper (Fn quit_fn)) [] [] world0)
       = Raise (BaseException ''SystemExit: 1'')"
  by (simp add: run_defs demo_defs)

text \<open>
  Claim C2, amended. If \<^verbatim>\<open>f\<close> raises an instance of \<^verbatim>\<open>Exception\<close>, the intercepted
  version does not raise it: the blanket handler logs one error, and the call returns
  \<^verbatim>\<open>None\<close>, the initial value of \<^verbatim>\<open>output\<close>, whatever the start phase did.
\<close>

theorem wrapper_swallows_Exception:
  assumes start: "run_async_in_thread env (thread_kwargs (url env @ ''/api/completions'') f kwargs) w
                    = (delivered, w1)"
    and raised: "call env f args kwargs w1 = (Raise e, w2)"
    and exc: "is_Exception e"
  shows "call env (Wrapper f) args kwargs w = (Ret PNone, emit (Log_error ''failed'') w2)"
  using exc
  by (simp add: wrapper_unfold[where invoke = "call env f" and args = args, OF start raised]
      handler_def)

theorem wrapper_swallows_Exception_witness:
  "call down_env (Fn fail_fn) [] []
     (snd (run_async_in_thread down_env
            (thread_kwargs (url down_env @ ''/api/completions'') (Fn fail_fn) []) world0))
     = (Raise (Exception ''ValueError: bad input''),
        snd (run_async_in_thread down_env
              (thread_kwargs (url down_env @ ''/api/completions'') (Fn fail_fn) []) world0))
   \<and> is_Exception (Exception ''ValueError: bad input'')
   \<and> fst (call down_env (Wrapper (Fn fail_fn)) [] [] world0) = Ret PNone"
proof -
  let ?start = "run_async_in_thread down_env
                  (thread_kwargs (url down_env @ ''/api/completions'') (Fn fail_fn) []) world0"
  have raised: "call down_env (Fn fail_fn) [] [] (snd ?start)
                  = (Raise (Exception ''ValueError: bad input''), snd ?start)"
    by (simp add: fail_fn_def)
  have exc: "is_Exception (Exception ''ValueError: bad input'')"
    by simp
  have "fst (call down_env (Wrapper (Fn fail_fn)) [] [] world0) = Ret PNone"
    by (subst wrapper_swallows_Exception[OF prod.collapse[symmetric] raised exc]) simp
  with raised exc show ?thesis
    by blast
qed

text \<open>
  Claim C3 does not hold of the code. The backend refuses the connection when the
  worker asks for a completion identifier: \<^verbatim>\<open>log_async\<close> raises inside the worker
  thread, nothing is put on the queue, and after \<^verbatim>\<open>add(2, 3)\<close> has returned \<open>5\<close> the
  main thread polls the empty queue for ever. The intercepted call does not
  terminate, and \<^verbatim>\<open>logging.error\<close> is not called.
\<close>

theorem start_failure_hangs:
  "call down_env (Fn add_fn) [PInt 2, PInt 3] [] world0 = (Ret (PInt 5), world0)
   \<and> call down_env (Wrapper (Fn add_fn)) [PInt 2, PInt 3] [] world0
       = (Hang,
          \<lparr>sessionID = PStr ''s-initial'',
           trace = [Http_post ''https://log10.io/api/completions'' (Some ''secret'')
                      (PDict [(''organization_id'', PStr ''org'')]),
                    Call_returned (PInt 5)]\<rparr>)"
  by (simp add: run_defs demo_defs)

text \<open>
  No network failure is needed for this: a keyword argument that \<^verbatim>\<open>json.dumps\<close>
  refuses makes \<^verbatim>\<open>log_async\<close> raise in the worker thread in the same way, and the
  call of the intercepted function does not return.
\<close>

lemma unserializable_kwargs_hang:
  "fst (call demo_env (Wrapper (Fn echo_fn)) [] [(''client'', PObject [])] world0) = Hang"
  by (simp add: run_defs demo_defs)

subsection \<open>The scoped session\<close>

lemma get_session_id_demo:
  "get_session_id demo_env world0
     = (Ret (PStr ''s0''),
        world0\<lparr>trace := [Http_post ''https://log10.io/api/sessions'' (Some ''secret'')
                              (PDict [(''organization_id'', PStr ''org'')])]\<rparr>)"
  by (simp add: get_session_id_def run_defs demo_defs)

text \<open>
  Claim C8. When the backend hands out a session identifier \<open>sid\<close>:
  \<^verbatim>\<open>__enter__\<close> makes \<open>sid\<close> the global \<^verbatim>\<open>sessionID\<close>; \<^verbatim>\<open>__exit__\<close> changes nothing
  and returns \<^verbatim>\<open>None\<close>; so \<^verbatim>\<open>with log10_session(): body\<close> ends as the body ends
  when it is run with \<open>sid\<close> as session, in the state the body leaves. After a body
  that does nothing the session is still \<open>sid\<close>, not the one from before the scope;
  an exception raised by the body is raised by the \<^verbatim>\<open>with\<close> statement.
\<close>

theorem scoped_session:
  assumes created: "get_session_id env w = (Ret sid, entered)"
    and body: "body (entered\<lparr>sessionID := sid\<rparr>) = (r, left)"
  shows "log10_session_enter env w = (Ret PNone, entered\<lparr>sessionID := sid\<rparr>)
       \<and> log10_session_exit exc left = (Ret PNone, left)
       \<and> with_log10_session env body w = (r, left)
       \<and> with_log10_session env (\<lambda>w'. (Ret (), w')) w = (Ret (), entered\<lparr>sessionID := sid\<rparr>)
       \<and> with_log10_session env (\<lambda>w'. (Raise e, w')) w = (Raise e, entered\<lparr>sessionID := sid\<rparr>)"
  using assms
  by (cases r)
    (simp_all add: log10_session_enter_def log10_session_exit_def with_log10_session_def
      with_stmt_def)

theorem scoped_session_witness:
  "get_session_id demo_env world0
     = (Ret (PStr ''s0''),
        world0\<lparr>trace := [Http_post ''https://log10.io/api/sessions'' (Some ''secret'')
                              (PDict [(''organization_id'', PStr ''org'')])]\<rparr>)
   \<and> sessionID world0 = PStr ''s-initial''
   \<and> sessionID (snd (with_log10_session demo_env (\<lambda>w'. (Ret (), w')) world0)) = PStr ''s0''
   \<and> with_log10_session demo_env (\<lambda>w'. (Raise (Exception ''boom''), w')) world0
       = (Raise (Exception ''boom''),
          \<lparr>sessionID = PStr ''s0'',
           trace = [Http_post ''https://log10.io/api/sessions'' (Some ''secret'')
                      (PDict [(''organization_id'', PStr ''org'')])]\<rparr>)"
proof -
  let ?w1 = "world0\<lparr>trace := [Http_post ''https://log10.io/api/sessions'' (Some ''secret'')
                              (PDict [(''organization_id'', PStr ''org'')])]\<rparr>"
  have "sessionID (snd (with_log10_session demo_env (\<lambda>w'. (Ret (), w')) world0)) = PStr ''s0''
      \<and> with_log10_session demo_env (\<lambda>w'. (Raise (Exception ''boom''), w')) world0
          = (Raise (Exception ''boom''), ?w1\<lparr>sessionID := PStr ''s0''\<rparr>)"
    using scoped_session[where body = "\<lambda>w'. (Ret (), w')" and r = "Ret ()"
        and left = "?w1\<lparr>sessionID := PStr ''s0''\<rparr>" and e = "Exception ''boom''",
        OF get_session_id_demo]
    by simp
  then show ?thesis
    using get_session_id_demo by (simp add: world0_def)
qed

subsection \<open>One request for an identifier per layer\<close>



lemma serializable_opt_str [simp]: "serializable (opt_str s)"
  by (cases s) (simp_all add: opt_str_def)






text \<open>
  With the backend that answers every request, the call of the twice-wrapped
  \<^verbatim>\<open>add\<close> sends two records with status \<^verbatim>\<open>started\<close> and two with status
  \<^verbatim>\<open>finished\<close>.
\<close>

lemma double_logging_demo:
  "map (\<lambda>e. field e ''status'')
     (trace (snd (call demo_env (Wrapper (Wrapper (Fn add_fn))) [PInt 2, PInt 3] [] world0)))
   = [None, Some (PStr ''started''), None, Some (PStr ''started''),
      None, None, Some (PStr ''finished''), None, None, Some (PStr ''finished'')]"
  by (simp add: run_defs demo_defs field_def Let_def)

subsection \<open>The order of the finish phase\<close>

lemma preceded_left:
  assumes "i < length a" and "preceded cu a i"
  shows "preceded cu (a @ b) i"
proof -
  from assms(2) obtain j k out cid where
    jk: "j < k" "k < i" and ev: "a ! j = Call_returned out" "a ! k = Queue_get cid"
      "url_ok cu cid (a ! i)"
    unfolding preceded_def by (elim exE conjE)
  from jk assms(1) have "j < length a" "k < length a" by simp_all
  with assms(1) ev have "(a @ b) ! j = Call_returned out" "(a @ b) ! k = Queue_get cid"
    "url_ok cu cid ((a @ b) ! i)"
    by (simp_all add: nth_append)
  with jk show ?thesis
    unfolding preceded_def by (intro exI conjI)
qed

lemma preceded_right:
  assumes "preceded cu b i"
  shows "preceded cu (a @ b) (length a + i)"
proof -
  from assms obtain j k out cid where
    jk: "j < k" "k < i" and ev: "b ! j = Call_returned out" "b ! k = Queue_get cid"
      "url_ok cu cid (b ! i)"
    unfolding preceded_def by (elim exE conjE)
  have "(a @ b) ! (length a + j) = Call_returned out" "(a @ b) ! (length a + k) = Queue_get cid"
    "url_ok cu cid ((a @ b) ! (length a + i))"
    using ev by (simp_all add: nth_append)
  moreover have "length a + j < length a + k" "length a + k < length a + i"
    using jk by simp_all
  ultimately show ?thesis
    unfolding preceded_def by (intro exI conjI)
qed

lemma ordered_append:
  assumes "ordered cu a" and "ordered cu b"
  shows "ordered cu (a @ b)"
  unfolding ordered_def
proof (intro allI impI)
  fix i
  assume i: "i < length (a @ b)" and fin: "is_finished ((a @ b) ! i)"
  show "preceded cu (a @ b) i"
  proof (cases "i < length a")
    case True
    with fin have "is_finished (a ! i)" by (simp add: nth_append)
    with assms(1) True have "preceded cu a i" by (simp add: ordered_def)
    with True show ?thesis by (rule preceded_left)
  next
    case False
    let ?i = "i - length a"
    from False i fin have "?i < length b" "is_finished (b ! ?i)"
      by (simp_all add: nth_append)
    with assms(2) have "preceded cu b ?i" by (simp add: ordered_def)
    from preceded_right[OF this, of a] False show ?thesis by simp
  qed
qed

lemma ordered_none: "list_all (\<lambda>e. \<not> is_finished e) evs \<Longrightarrow> ordered cu evs"
  by (simp add: ordered_def list_all_length)

lemma ordered_tail:
  assumes "list_all (url_ok cu cid) fin"
  shows "ordered cu (Call_returned out # Queue_get cid # fin)"
  unfolding ordered_def
proof (intro allI impI)
  fix i
  let ?evs = "Call_returned out # Queue_get cid # fin"
  assume i: "i < length ?evs" and f: "is_finished (?evs ! i)"
  have "\<not> is_finished (Call_returned out)" "\<not> is_finished (Queue_get cid)"
    by (simp_all add: is_finished_def field_def)
  with f have "i \<noteq> 0" "i \<noteq> Suc 0"
    by (auto intro: ccontr)
  then have "2 \<le> i" by simp
  define m where "m = i - 2"
  with \<open>2 \<le> i\<close> have m: "i = Suc (Suc m)" by simp
  with i have "m < length fin" by simp
  with assms have "url_ok cu cid (fin ! m)"
    by (simp add: list_all_length)
  then have "(0::nat) < 1 \<and> 1 < i \<and> ?evs ! 0 = Call_returned out \<and> ?evs ! 1 = Queue_get cid
      \<and> url_ok cu cid (?evs ! i)"
    by (simp add: m)
  then show "preceded cu ?evs i"
    unfolding preceded_def by (intro exI)
qed

lemma start_row_fields:
  assumes "start_row env w func kw = Ret row"
  shows "\<exists>m q r. row = [(''status'', PStr ''started''), (''orig_module'', m), (''orig_qualname'', q),
                         (''request'', PStr r), (''session_id'', sessionID w),
                         (''organization_id'', opt_str (org_id env))]
            \<and> getattr (targ_val func) ''__module__'' = Ret m
            \<and> getattr (targ_val func) ''__qualname__'' = Ret q
            \<and> json_dumps (PDict (map (\<lambda>(k, t). (k, targ_val t)) kw)) = Ret r"
  using assms unfolding start_row_def
  by (cases "getattr (targ_val func) ''__module__''"; cases "getattr (targ_val func) ''__qualname__''";
      cases "json_dumps (PDict (map (\<lambda>(k, t). (k, targ_val t)) kw))") auto

lemma start_not_finished:
  "only (\<lambda>e. \<not> is_finished e) w (snd (run_async_in_thread env d w))"
proof (intro only_run_async_in_thread only_log_async, goal_cases)
  case (1 cu func s)
  show ?case by (simp add: is_finished_def field_def)
next
  case (2 cu func s c row)
  from start_row_fields[OF 2(4)] show ?case
    by (auto simp: is_finished_def field_def)
next
  case (3 cu func row)
  from start_row_fields[OF 3(3)] show ?case
    by (auto simp: is_finished_def field_def dict_get_dict_set)
next
  case (4 cu func t)
  show ?case by (simp add: is_finished_def field_def)
qed

lemma tail_ordered:
  assumes start: "run_async_in_thread env (thread_kwargs (url env @ ''/api/completions'') f kwargs) w
                    = (delivered, w1)"
    and inv: "invoke args kwargs w1 = (r, w2)"
  shows "\<exists>t. snd (wrapper env f invoke args kwargs w) = w2\<lparr>trace := trace w2 @ t\<rparr>
           \<and> ordered (url env @ ''/api/completions'') t"
proof -
  let ?cu = "url env @ ''/api/completions''"
  note wu = wrapper_unfold[where invoke = invoke and args = args, OF start inv]
  have plain: "\<exists>t. w' = w2\<lparr>trace := trace w2 @ t\<rparr> \<and> ordered ?cu t"
    if "only (\<lambda>e. \<not> is_finished e) w2 w'" for w'
    using that by (auto simp: only_def intro: ordered_none)
  have nf: "\<not> is_finished (Log_error t)" "\<not> is_finished (Call_returned v)" for t v
    by (simp_all add: is_finished_def field_def)
  show ?thesis
  proof (cases r)
    case (Ret out)
    show ?thesis
    proof (cases delivered)
      case None
      with Ret show ?thesis
        by (simp add: wu) (intro plain only_emit nf)
    next
      case (Some cid)
      let ?w4 = "emit (Queue_get cid) (emit (Call_returned out) w2)"
      let ?fin = "finish_phase env ?cu cid out (PList (map stack_entry (extract_stack env))) ?w4"
      obtain r3 w3 where fin: "?fin = (r3, w3)" by (cases ?fin)
      have "only (url_ok ?cu cid) ?w4 (snd ?fin)"
        by (intro only_finish_phase) (auto simp: url_ok_def)
      with fin have a: "only (url_ok ?cu cid) ?w4 w3" by simp
      have "only (url_ok ?cu cid) w3 (snd (handler e out w3))" for e
        by (intro only_handler) (simp add: url_ok_def)
      with a have b: "only (url_ok ?cu cid) ?w4 (snd (handler e out w3))" for e
        by (rule only_trans)
      have "only (url_ok ?cu cid) ?w4 (snd (wrapper env f invoke args kwargs w))"
        using a b by (cases r3) (simp_all add: wu Ret Some fin)
      then obtain t where "snd (wrapper env f invoke args kwargs w) = ?w4\<lparr>trace := trace ?w4 @ t\<rparr>"
        "list_all (url_ok ?cu cid) t"
        by (auto simp: only_def)
      then show ?thesis
        by (intro exI[of _ "Call_returned out # Queue_get cid # t"])
          (simp add: emit_def ordered_tail)
    qed
  next
    case (Raise e)
    then show ?thesis
      by (simp add: wu) (intro plain only_handler nf)
  next
    case Hang
    then show ?thesis
      by (simp add: wu) (intro plain only_refl)
  qed
qed

lemma call_ordered:
  "\<exists>evs. snd (call env c args kwargs w) = w\<lparr>trace := trace w @ evs\<rparr>
         \<and> ordered (url env @ ''/api/completions'') evs"
proof (induction c arbitrary: args w)
  case (Fn r)
  show ?case by (intro exI[of _ "[]"]) (simp add: ordered_def)
next
  case (Bound c self)
  show ?case using Bound.IH[of "self # args" w] by simp
next
  case (Wrapper c)
  let ?cu = "url env @ ''/api/completions''"
  let ?start = "run_async_in_thread env (thread_kwargs ?cu c kwargs) w"
  obtain delivered w1 where start: "?start = (delivered, w1)" by (cases ?start)
  obtain r w2 where inv: "call env c args kwargs w1 = (r, w2)" by (cases "call env c args kwargs w1")
  from start_not_finished[of w env "thread_kwargs ?cu c kwargs"] start
  obtain a where a: "w1 = w\<lparr>trace := trace w @ a\<rparr>" "ordered ?cu a"
    by (auto simp: only_def intro: ordered_none)
  from Wrapper.IH[of args w1] inv
  obtain b where b: "w2 = w1\<lparr>trace := trace w1 @ b\<rparr>" "ordered ?cu b"
    by auto
  from tail_ordered[where invoke = "call env c" and args = args, OF start inv]
  obtain t where t: "snd (wrapper env c (call env c) args kwargs w) = w2\<lparr>trace := trace w2 @ t\<rparr>"
    "ordered ?cu t"
    by auto
  show ?case
    by (intro exI[of _ "a @ b @ t"]) (simp add: a b t ordered_append)
qed

text \<open>
  Claim C4. In the trace of any call, a record with status \<^verbatim>\<open>finished\<close> (sent by
  request or given to the warehouse client) comes after an entry that says the
  wrapped callable has returned, followed by an entry that says a completion
  identifier has been taken from the queue; and when the record is sent by request,
  it goes to the completion URL extended by that identifier.
\<close>

theorem finish_after_return_and_receipt:
  assumes "evs = new_events w (snd (call env c args kwargs w))"
    and "i < length evs" and "is_finished (evs ! i)"
  shows "\<exists>j k out cid. j < k \<and> k < i \<and> evs ! j = Call_returned out \<and> evs ! k = Queue_get cid
           \<and> (\<forall>u t b. evs ! i = Http_post u t b \<longrightarrow>
                 (\<exists>s. cid = PStr s \<and> u = (url env @ ''/api/completions'') @ ''/'' @ s))"
proof -
  from call_ordered[of env c args kwargs w] assms(1)
  have "ordered (url env @ ''/api/completions'') evs"
    by (auto simp: new_events_def)
  with assms(2,3) have "preceded (url env @ ''/api/completions'') evs i"
    by (simp add: ordered_def)
  then show ?thesis
    unfolding preceded_def url_ok_def .
qed

theorem finish_after_return_and_receipt_witness:
  "4 < length (new_events world0 (snd (call demo_env (Wrapper (Fn add_fn)) [PInt 2, PInt 3] [] world0)))
   \<and> is_finished
        (new_events world0 (snd (call demo_env (Wrapper (Fn add_fn)) [PInt 2, PInt 3] [] world0)) ! 4)
   \<and> (\<exists>j k out cid. j < k \<and> k < 4
        \<and> new_events world0 (snd (call demo_env (Wrapper (Fn add_fn)) [PInt 2, PInt 3] [] world0)) ! j
            = Call_returned out
        \<and> new_events world0 (snd (call demo_env (Wrapper (Fn add_fn)) [PInt 2, PInt 3] [] world0)) ! k
            = Queue_get cid
        \<and> (\<forall>u t b.
              new_events world0 (snd (call demo_env (Wrapper (Fn add_fn)) [PInt 2, PInt 3] [] world0)) ! 4
                = Http_post u t b \<longrightarrow>
              (\<exists>s. cid = PStr s \<and> u = (url demo_env @ ''/api/completions'') @ ''/'' @ s)))"
proof -
  let ?evs = "new_events world0 (snd (call demo_env (Wrapper (Fn add_fn)) [PInt 2, PInt 3] [] world0))"
  have len: "4 < length ?evs"
    by (simp add: run_defs demo_defs new_events_def Let_def)
  have fin: "is_finished (?evs ! 4)"
    by (simp add: run_defs demo_defs new_events_def Let_def is_finished_def field_def)
  from finish_after_return_and_receipt[OF refl len fin] len fin
  show ?thesis by blast
qed

subsection \<open>The record of the start phase\<close>

lemma dict_set_new: "k \<notin> fst ` set d \<Longrightarrow> dict_set d k v = d @ [(k, v)]"
  by (induction d) auto

lemma dict_merge_append:
  "distinct (map fst e) \<Longrightarrow> fst ` set e \<inter> fst ` set d = {} \<Longrightarrow> dict_merge d e = d @ e"
proof (induction e arbitrary: d)
  case Nil
  then show ?case by simp
next
  case (Cons x e)
  obtain k v where x: "x = (k, v)" by (cases x)
  from Cons.prems have k: "k \<notin> fst ` set d" and d: "distinct (map fst e)"
    and ke: "k \<notin> fst ` set e" and disj: "fst ` set e \<inter> fst ` set d = {}"
    by (auto simp: x)
  have "fst ` set e \<inter> fst ` set (d @ [(k, v)]) = {}"
    using ke disj by auto
  from Cons.IH[OF d this] k show ?case
    by (simp add: x dict_set_new)
qed

lemma thread_kwargs_plain:
  assumes "distinct (map fst kwargs)" and "fst ` set kwargs \<inter> set reserved = {}"
  shows "thread_kwargs cu f kwargs
           = [(''completion_url'', Val (PStr cu)), (''func'', Func f), (''result_queue'', Queue)]
             @ map (\<lambda>(k, v). (k, Val v)) kwargs"
proof -
  have keys: "map fst (map (\<lambda>(k, v). (k, Val v)) kwargs) = map fst kwargs"
    by (induction kwargs) auto
  have "set (map fst (map (\<lambda>(k, v). (k, Val v)) kwargs)) = set (map fst kwargs)"
    by (simp only: keys)
  then have "fst ` set (map (\<lambda>(k, v). (k, Val v)) kwargs) = fst ` set kwargs"
    by (simp only: set_map)
  moreover have "distinct (map fst (map (\<lambda>(k, v). (k, Val v)) kwargs))"
    using assms(1) by (simp only: keys)
  ultimately show ?thesis
    unfolding thread_kwargs_def using assms(2)
    by (intro dict_merge_append) (auto simp: reserved_def)
qed

lemma run_async_plain:
  assumes "distinct (map fst kwargs)" and "fst ` set kwargs \<inter> set reserved = {}"
  shows "snd (run_async_in_thread env (thread_kwargs cu f kwargs) w)
           = snd (log_async env (Val (PStr cu)) (Func f) (map (\<lambda>(k, v). (k, Val v)) kwargs) w)"
proof -
  have "dict_without [''completion_url'', ''func'', ''result_queue'']
          (map (\<lambda>(k, v). (k, Val v)) kwargs) = map (\<lambda>(k, v). (k, Val v)) kwargs"
    using assms(2) by (induction kwargs) (auto simp: dict_without_def reserved_def)
  then show ?thesis
    by (simp add: thread_kwargs_plain[OF assms] run_async_in_thread_def dict_without_def
        split: prod.splits res.splits)
qed

lemma vals_back: "map (\<lambda>(k, t). (k, targ_val t)) (map (\<lambda>(k, v). (k, Val v)) kwargs) = kwargs"
  by (induction kwargs) auto

lemma start_row_plain:
  assumes "start_row env w (Func f) (map (\<lambda>(k, v). (k, Val v)) kwargs) = Ret row"
  shows "row = [(''status'', PStr ''started''), (''orig_module'', PStr (m_module (metadata f))),
                (''orig_qualname'', PStr (m_qualname (metadata f))),
                (''request'', PStr (encode (PDict kwargs))), (''session_id'', sessionID w),
                (''organization_id'', opt_str (org_id env))]"
  using start_row_fields[OF assms] unfolding vals_back
  by (auto simp: func_object_def json_dumps_def split: if_splits)

lemma finish_row_status:
  "finish_row env out st = Ret row \<Longrightarrow> \<exists>d. row = PDict d \<and> dict_get d ''status'' = Some (PStr ''finished'')"
  unfolding finish_row_def
  by (cases "json_dumps out"; cases "json_dumps st") auto

lemma start_started_ok:
  assumes "distinct (map fst kwargs)" and "fst ` set kwargs \<inter> set reserved = {}"
  shows "only (started_ok env (metadata f) (sessionID w) kwargs) w
           (snd (run_async_in_thread env (thread_kwargs cu f kwargs) w))"
  unfolding run_async_plain[OF assms]
proof (intro only_log_async, goal_cases)
  case (1 s)
  show ?case by (simp add: started_ok_def is_started_def field_def)
next
  case (2 s c row)
  from start_row_plain[OF 2(2)] show ?case
    by (simp add: started_ok_def is_started_def field_def)
next
  case (3 row)
  from start_row_plain[OF 3] show ?case
    by (simp add: started_ok_def is_started_def field_def dict_get_dict_set)
next
  case (4 t)
  show ?case by (simp add: started_ok_def is_started_def field_def)
qed

lemma call_started_ok:
  assumes "distinct (map fst kwargs)" and "fst ` set kwargs \<inter> set reserved = {}"
  shows "only (started_ok env (metadata c) (sessionID w) kwargs) w (snd (call env c args kwargs w))"
proof (induction c arbitrary: args w)
  case (Fn r)
  show ?case by simp
next
  case (Bound c self)
  show ?case using Bound.IH[of w "self # args"] by simp
next
  case (Wrapper c)
  let ?cu = "url env @ ''/api/completions''"
  let ?A = "started_ok env (metadata c) (sessionID w) kwargs"
  let ?start = "run_async_in_thread env (thread_kwargs ?cu c kwargs) w"
  obtain delivered w1 where start: "?start = (delivered, w1)" by (cases ?start)
  obtain r w2 where inv: "call env c args kwargs w1 = (r, w2)" by (cases "call env c args kwargs w1")
  from start_started_ok[OF assms, of env c w ?cu] start
  have a: "only ?A w w1" by simp
  then have "sessionID w1 = sessionID w" by (rule only_sessionID)
  with Wrapper.IH[of w1 args] inv have b: "only ?A w1 w2" by simp
  have t: "only ?A w2 (snd (wrapper env c (call env c) args kwargs w))"
  proof (rule only_wrapper_tail[where invoke = "call env c" and args = args, OF start inv], goal_cases)
    case (4 out row s)
    from finish_row_status[OF this] show ?case
      by (auto simp: started_ok_def is_started_def field_def)
  next
    case (5 out row)
    from finish_row_status[OF this] show ?case
      by (auto simp: started_ok_def is_started_def field_def)
  qed (simp_all add: started_ok_def is_started_def field_def)
  from only_trans[OF only_trans[OF a b] t] show ?case
    by (simp add: metadata_Wrapper del: metadata.simps)
qed

text \<open>
  Claim C5, as stated, fails: the record with status \<^verbatim>\<open>started\<close> for the call
  \<^verbatim>\<open>add(2, 3)\<close> has the request \<^verbatim>\<open>{}\<close>, and it is the very record sent for
  \<^verbatim>\<open>add(40, 2)\<close>: positional arguments are not recorded (the source asks
  \<^verbatim>\<open># do we want to also store args?\<close>).
\<close>

theorem started_record_counterexample:
  "new_events world0 (snd (call demo_env (Wrapper (Fn add_fn)) [PInt 2, PInt 3] [] world0)) ! 1
     = Http_post ''https://log10.io/api/completions/c0'' (Some ''secret'')
         (PDict [(''status'', PStr ''started''), (''orig_module'', PStr ''calc''),
                 (''orig_qualname'', PStr ''add''), (''request'', PStr ''{}''),
                 (''session_id'', PStr ''s-initial''), (''organization_id'', PStr ''org'')])
   \<and> new_events world0 (snd (call demo_env (Wrapper (Fn add_fn)) [PInt 40, PInt 2] [] world0)) ! 1
     = new_events world0 (snd (call demo_env (Wrapper (Fn add_fn)) [PInt 2, PInt 3] [] world0)) ! 1"
  by (simp add: run_defs demo_defs new_events_def Let_def)

text \<open>
  Claim C5, amended. For a call \<^verbatim>\<open>f(*args, **kwargs)\<close> of an intercepted callable
  whose keyword arguments are not named \<^verbatim>\<open>completion_url\<close>, \<^verbatim>\<open>func\<close> or
  \<^verbatim>\<open>result_queue\<close>, every record with status \<^verbatim>\<open>started\<close> that the call sends holds,
  as one JSON text, the keyword arguments and only them, together with
  \<^verbatim>\<open>__module__\<close> and \<^verbatim>\<open>__qualname__\<close> of \<^verbatim>\<open>f\<close>, the current session identifier and
  the organization identifier.
\<close>

theorem started_record:
  assumes "distinct (map fst kwargs)" and "fst ` set kwargs \<inter> set reserved = {}"
    and "e \<in> set (new_events w (snd (call env (intercepting_decorator f) args kwargs w)))"
    and "is_started e"
  shows "field e ''request'' = Some (PStr (encode (PDict kwargs)))
       \<and> field e ''orig_module'' = Some (PStr (m_module (metadata f)))
       \<and> field e ''orig_qualname'' = Some (PStr (m_qualname (metadata f)))
       \<and> field e ''session_id'' = Some (sessionID w)
       \<and> field e ''organization_id'' = Some (opt_str (org_id env))"
proof -
  from call_started_ok[OF assms(1,2), of env "Wrapper f" w args]
  have "list_all (started_ok env (metadata f) (sessionID w) kwargs)
          (new_events w (snd (call env (Wrapper f) args kwargs w)))"
    by (auto simp: only_def new_events_def metadata_Wrapper simp del: metadata.simps call.simps)
  with assms(3) have "started_ok env (metadata f) (sessionID w) kwargs e"
    by (simp add: list_all_iff intercepting_decorator_def del: call.simps)
  with assms(4) show ?thesis
    by (simp add: started_ok_def)
qed

theorem started_record_witness:
  "distinct (map fst [(''x'', PInt 1), (''tags'', PList [PStr ''a'', PNone])])
   \<and> fst ` set [(''x'', PInt 1), (''tags'', PList [PStr ''a'', PNone])] \<inter> set reserved = {}
   \<and> is_started
        (new_events world0
           (snd (call demo_env (intercepting_decorator (Fn echo_fn)) [PInt 2, PInt 3]
                   [(''x'', PInt 1), (''tags'', PList [PStr ''a'', PNone])] world0)) ! 1)
   \<and> field
        (new_events world0
           (snd (call demo_env (intercepting_decorator (Fn echo_fn)) [PInt 2, PInt 3]
                   [(''x'', PInt 1), (''tags'', PList [PStr ''a'', PNone])] world0)) ! 1)
        ''request''
       = Some (PStr (encode (PDict [(''x'', PInt 1), (''tags'', PList [PStr ''a'', PNone])])))
   \<and> field
        (new_events world0
           (snd (call demo_env (intercepting_decorator (Fn echo_fn)) [PInt 2, PInt 3]
                   [(''x'', PInt 1), (''tags'', PList [PStr ''a'', PNone])] world0)) ! 1)
        ''orig_qualname''
       = Some (PStr ''Calc.echo'')"
proof -
  let ?kw = "[(''x'', PInt 1), (''tags'', PList [PStr ''a'', PNone])]"
  let ?evs = "new_events world0
                (snd (call demo_env (intercepting_decorator (Fn echo_fn)) [PInt 2, PInt 3] ?kw world0))"
  have d: "distinct (map fst ?kw)" and r: "fst ` set ?kw \<inter> set reserved = {}"
    by (simp_all add: reserved_def)
  have len: "1 < length ?evs"
    by (simp add: run_defs demo_defs new_events_def Let_def intercepting_decorator_def)
  then have mem: "?evs ! 1 \<in> set ?evs"
    by (rule nth_mem)
  have st: "is_started (?evs ! 1)"
    by (simp add: run_defs demo_defs new_events_def Let_def intercepting_decorator_def
        is_started_def field_def)
  from started_record[OF d r mem st] d r st show ?thesis
    by (simp add: echo_fn_def)
qed

text \<open>
  The record is really sent: for the target \<^verbatim>\<open>log10\<close>, when the backend answers
  the first request with a completion identifier \<open>c\<close> and the keyword arguments can
  be serialized, the first two events of the call are the request for the identifier
  and the request that carries the record to the completion URL extended by \<open>c\<close>.
\<close>

lemma call_appends: "\<exists>evs. snd (call env c args kwargs w) = w\<lparr>trace := trace w @ evs\<rparr>"
  using call_ordered[of env c args kwargs w] by auto

lemma vals_back_comp:
  "map ((\<lambda>(k, t). (k, targ_val t)) \<circ> (\<lambda>(k, v). (k, Val v))) kwargs = kwargs"
  by (induction kwargs) auto

lemma started_record_sent:
  assumes "distinct (map fst kwargs)" and "fst ` set kwargs \<inter> set reserved = {}"
    and "target_service env = Some ''log10''"
    and "backend env (trace w) (url env @ ''/api/completions'')
           (PDict [(''organization_id'', opt_str (org_id env))]) = Ret (Json (PDict answer))"
    and "dict_get answer ''completionID'' = Some (PStr c)"
    and "serializable (PDict kwargs)" and "serializable (sessionID w)"
  shows "\<exists>rest. new_events w (snd (call env (intercepting_decorator f) args kwargs w))
           = Http_post (url env @ ''/api/completions'') (token env)
               (PDict [(''organization_id'', opt_str (org_id env))])
             # Http_post (url env @ ''/api/completions'' @ ''/'' @ c) (token env)
                 (PDict [(''status'', PStr ''started''),
                         (''orig_module'', PStr (m_module (metadata f))),
                         (''orig_qualname'', PStr (m_qualname (metadata f))),
                         (''request'', PStr (encode (PDict kwargs))),
                         (''session_id'', sessionID w),
                         (''organization_id'', opt_str (org_id env))])
             # rest"
proof -
  let ?cu = "url env @ ''/api/completions''"
  let ?org = "PDict [(''organization_id'', opt_str (org_id env))]"
  let ?row = "PDict [(''status'', PStr ''started''),
                     (''orig_module'', PStr (m_module (metadata f))),
                     (''orig_qualname'', PStr (m_qualname (metadata f))),
                     (''request'', PStr (encode (PDict kwargs))),
                     (''session_id'', sessionID w),
                     (''organization_id'', opt_str (org_id env))]"
  let ?start = "run_async_in_thread env (thread_kwargs ?cu f kwargs) w"
  obtain delivered w1 where start: "?start = (delivered, w1)" by (cases ?start)
  obtain r w2 where inv: "call env f args kwargs w1 = (r, w2)" by (cases "call env f args kwargs w1")
  have "snd (log_async env (Val (PStr ?cu)) (Func f) (map (\<lambda>(k, v). (k, Val v)) kwargs) w)
          = w\<lparr>trace := trace w @ [Http_post ?cu (token env) ?org,
                                    Http_post (?cu @ ''/'' @ c) (token env) ?row]\<rparr>"
    using assms(3-7)
    by (cases "backend env (trace w @ [Http_post ?cu (token env) ?org]) (?cu @ ''/'' @ c) ?row")
      (simp_all add: log_async_def log_started_def request_post_def start_row_def vals_back_comp
        func_object_def json_dumps_def pure_do_def emit_def)
  with start have w1: "w1 = w\<lparr>trace := trace w @ [Http_post ?cu (token env) ?org,
                                    Http_post (?cu @ ''/'' @ c) (token env) ?row]\<rparr>"
    using run_async_plain[OF assms(1,2), of env ?cu f w] by simp
  from call_appends[of env f args kwargs w1] inv
  obtain b where b: "w2 = w1\<lparr>trace := trace w1 @ b\<rparr>" by auto
  from tail_ordered[where invoke = "call env f" and args = args, OF start inv]
  obtain t where t: "snd (wrapper env f (call env f) args kwargs w) = w2\<lparr>trace := trace w2 @ t\<rparr>"
    by auto
  show ?thesis
    by (intro exI[of _ "b @ t"]) (simp add: intercepting_decorator_def new_events_def t b w1)
qed

end
